theory Spec2Isabelle
  imports Complex_Main "HOL-Library.Word" "HOL-Library.Log_Nat"
begin

unbundle bit_operations_syntax

section \<open>Bytes, hexadecimal text and UTF-8\<close>

text \<open>
  A \<open>Uint8Array\<close> is a list of 8-bit words. A JavaScript string is modelled by the list
  of its code units; the model keeps the code units below 256 (Isabelle's \<open>char\<close>), which
  covers hexadecimal keys, base64 text, the JSON text of key lists and the hash strings
  of the Merkle engine.
\<close>

type_synonym byte = "8 word"

definition hexDigit :: "nat \<Rightarrow> char" where
  "hexDigit n = ''0123456789abcdef'' ! (n mod 16)"

text \<open>\<open>b.toString(16).padStart(2, "0")\<close> for a byte \<open>b\<close>.\<close>

definition toHex2 :: "byte \<Rightarrow> string" where
  "toHex2 b = [hexDigit (unat b div 16), hexDigit (unat b mod 16)]"

definition hexOf :: "byte list \<Rightarrow> string" where
  "hexOf bs = concat (map toHex2 bs)"

text \<open>
  \<open>new TextEncoder().encode(s)\<close>: UTF-8. A code unit below 128 is one byte, a code
  unit from 128 to 255 is two bytes.
\<close>

definition utf8_char :: "char \<Rightarrow> byte list" where
  "utf8_char c =
     (let n = of_char c :: nat
      in if n < 128 then [of_nat n]
         else [of_nat (192 + n div 64), of_nat (128 + n mod 64)])"

definition TextEncoder_encode :: "string \<Rightarrow> byte list" where
  "TextEncoder_encode s = concat (map utf8_char s)"

section \<open>Merkle integrity engine (src/lib/audit.ts)\<close>

text \<open>The leaf hash: every byte XOR \<open>0x42\<close>, written as lowercase hex.\<close>

definition chunkHash :: "byte list \<Rightarrow> string" where
  "chunkHash chunk = hexOf (map (\<lambda>b. b XOR 0x42) chunk)"

text \<open>The pair hash: the hex text of the UTF-8 bytes of \<open>left + right\<close>.\<close>

definition combineHash :: "string \<Rightarrow> string \<Rightarrow> string" where
  "combineHash left right = hexOf (TextEncoder_encode (left @ right))"

text \<open>
  One pass of the inner \<open>for (i = 0; i < level.length; i += 2)\<close> loop: adjacent nodes
  are combined, an odd last node is promoted unchanged.
\<close>

fun nextLevel :: "string list \<Rightarrow> string list" where
  "nextLevel (a # b # rest) = combineHash a b # nextLevel rest"
| "nextLevel [a] = [a]"
| "nextLevel [] = []"

lemma length_nextLevel: "length (nextLevel level) = (length level + 1) div 2"
  by (induction level rule: nextLevel.induct) auto

text \<open>
  \<open>while (level.length > 1) { ...; level = nextLevel; tree.unshift(level) }\<close>. The tree
  is the list of levels, root level first.
\<close>

function buildTree :: "string list \<Rightarrow> string list list \<Rightarrow> string list list" where
  "buildTree level tree =
     (if length level > 1
      then let nl = nextLevel level in buildTree nl (nl # tree)
      else tree)"
  by pat_completeness auto
termination
  by (relation "measure (\<lambda>(level, tree). length level)") (auto simp: length_nextLevel)

declare buildTree.simps [simp del]

text \<open>
  The proof of leaf \<open>i\<close>: \<open>for (j = tree.length - 1; j > 0; j--)\<close>, pushing the sibling
  at each level when it exists and halving the index.
\<close>

fun proofLoop :: "string list list \<Rightarrow> nat \<Rightarrow> nat \<Rightarrow> string list \<Rightarrow> string list" where
  "proofLoop tree 0 index proof = proof"
| "proofLoop tree (Suc j') index proof =
     (let j = Suc j';
          isRight = (index mod 2 = 0);
          siblingIndex = (if isRight then index + 1 else index - 1);
          proof' = (if siblingIndex < length (tree ! j)
                    then proof @ [tree ! j ! siblingIndex] else proof)
      in proofLoop tree j' (index div 2) proof')"

definition verifyMerkleProof :: "byte list \<Rightarrow> string list \<Rightarrow> string \<Rightarrow> bool" where
  "verifyMerkleProof chunk proof rootHash =
     (fold (\<lambda>sibling hash. combineHash hash sibling) proof (chunkHash chunk) = rootHash)"

record merkle =
  root :: "string option"
  proofs :: "string list list"

text \<open>\<open>tree[0][0]\<close> is \<open>undefined\<close> (\<open>None\<close>) when there is no chunk.\<close>

definition generateMerkleTree :: "byte list list \<Rightarrow> merkle" where
  "generateMerkleTree chunks =
     (let leaves = map chunkHash chunks;
          tree = buildTree leaves [leaves];
          allProofs = map (\<lambda>i. proofLoop tree (length tree - 1) i []) [0..<length leaves]
      in \<lparr> root = (case hd tree of [] \<Rightarrow> None | r # _ \<Rightarrow> Some r), proofs = allProofs \<rparr>)"


section \<open>Errors and platform services\<close>

text \<open>
  Every \<open>throw\<close> and every rejected promise is a value \<open>Inl e\<close>. \<open>Error\<close>, \<open>TypeError\<close>
  and \<open>SyntaxError\<close> carry their message, a \<open>DOMException\<close> its name and its message.
\<close>

datatype js_error =
    Error string
  | TypeError string
  | SyntaxError string
  | DOMException string string

fun message :: "js_error \<Rightarrow> string" where
  "message (Error m) = m"
| "message (TypeError m) = m"
| "message (SyntaxError m) = m"
| "message (DOMException n m) = m"

text \<open>Sequencing of steps that can fail: the first failure is the result.\<close>

definition bindE :: "'e + 'a \<Rightarrow> ('a \<Rightarrow> 'e + 'b) \<Rightarrow> 'e + 'b" where
  "bindE m f = (case m of Inl e \<Rightarrow> Inl e | Inr x \<Rightarrow> f x)"

text \<open>
  A JavaScript \<open>number\<close>: a finite binary64 value (kept as the rational it denotes), the two
  infinities, or \<open>NaN\<close>. The sign of zero is not kept.
\<close>

datatype jsnum = Fin rat | PInf | NInf | NaN

text \<open>
  The services the code calls and does not implement: WebCrypto (\<open>importKey\<close>, \<open>encrypt\<close>,
  \<open>decrypt\<close>, \<open>digest\<close>), \<open>TextDecoder\<close>, \<open>JSON.parse\<close>, and the conversions between
  numbers and strings. \<open>encrypt\<close> and \<open>decrypt\<close> take the algorithm name, the IV, the tag
  length, the key and the data. \<open>'k\<close> is the type of a \<open>CryptoKey\<close>.
\<close>

record 'k platform =
  importKey :: "string \<Rightarrow> byte list \<Rightarrow> string list \<Rightarrow> js_error + 'k"
  encrypt :: "string \<Rightarrow> byte list \<Rightarrow> nat \<Rightarrow> 'k \<Rightarrow> byte list \<Rightarrow> js_error + byte list"
  decrypt :: "string \<Rightarrow> byte list \<Rightarrow> nat \<Rightarrow> 'k \<Rightarrow> byte list \<Rightarrow> js_error + byte list"
  digest :: "string \<Rightarrow> byte list \<Rightarrow> byte list"
  TextDecoder_decode :: "byte list \<Rightarrow> string"
  JSON_parse :: "string \<Rightarrow> js_error + string list"
  Number_of :: "string \<Rightarrow> jsnum"
  String_of :: "jsnum \<Rightarrow> string"

text \<open>
  \<open>window.crypto.getRandomValues(new Uint8Array(n))\<close> reads the next \<open>n\<close> bytes of the
  random source, which is passed explicitly as a stream.
\<close>

type_synonym rng = "nat \<Rightarrow> byte"

definition getRandomValues :: "nat \<Rightarrow> rng \<Rightarrow> byte list \<times> rng" where
  "getRandomValues n g = (map g [0..<n], \<lambda>i. g (n + i))"

section \<open>Key and IV utilities\<close>

text \<open>Decimal text of a natural number, as template literals print a non-negative integer.\<close>

function show_nat :: "nat \<Rightarrow> string" where
  "show_nat n = (if n < 10 then [hexDigit n] else show_nat (n div 10) @ [hexDigit (n mod 10)])"
  by pat_completeness auto
termination
  by (relation "measure id") auto

declare show_nat.simps [simp del]

subsection \<open>Hexadecimal keys\<close>

definition isHexChar :: "char \<Rightarrow> bool" where
  "isHexChar c = (c \<in> set ''0123456789abcdefABCDEF'')"

definition hexVal :: "char \<Rightarrow> nat" where
  "hexVal c =
     (let n = of_char c :: nat
      in if 48 \<le> n \<and> n \<le> 57 then n - 48
         else if 97 \<le> n \<and> n \<le> 102 then n - 87
         else n - 55)"

text \<open>Line terminators (not matched by \<open>.\<close>) and white space (skipped by \<open>parseInt\<close>).\<close>

definition isLineTerminator :: "char \<Rightarrow> bool" where
  "isLineTerminator c = (of_char c \<in> {10, 13 :: nat})"

definition isWhiteSpace :: "char \<Rightarrow> bool" where
  "isWhiteSpace c = (of_char c \<in> {9, 10, 11, 12, 13, 32, 160 :: nat})"

text \<open>
  \<open>s.match(/.{1,2}/g)\<close>: the successive greedy matches of one or two characters other
  than line terminators. The empty list stands for \<open>null\<close> (no match).
\<close>

fun match_pairs :: "string \<Rightarrow> string list" where
  "match_pairs [] = []"
| "match_pairs [c] = (if isLineTerminator c then [] else [[c]])"
| "match_pairs (c # d # rest) =
     (if isLineTerminator c then match_pairs (d # rest)
      else if isLineTerminator d then [c] # match_pairs rest
      else [c, d] # match_pairs rest)"

text \<open>
  \<open>Number.parseInt(s, 16)\<close>: leading white space, a sign, an optional \<open>0x\<close>, then the
  longest run of hex digits; \<open>None\<close> is \<open>NaN\<close>.
\<close>

definition hexNumber :: "string \<Rightarrow> nat" where
  "hexNumber ds = foldl (\<lambda>acc d. 16 * acc + hexVal d) 0 ds"

definition parseInt16 :: "string \<Rightarrow> int option" where
  "parseInt16 s =
     (let t = dropWhile isWhiteSpace s;
          neg = (t \<noteq> [] \<and> hd t = CHR ''-'');
          u = (if t \<noteq> [] \<and> (hd t = CHR ''-'' \<or> hd t = CHR ''+'') then tl t else t);
          v = (if take 2 u = ''0x'' \<or> take 2 u = ''0X'' then drop 2 u else u);
          ds = takeWhile isHexChar v
      in if ds = [] then None
         else Some (if neg then - int (hexNumber ds) else int (hexNumber ds)))"

text \<open>Storing a number into a \<open>Uint8Array\<close>: \<open>NaN\<close> becomes 0, an integer is taken modulo 256.\<close>

definition toUint8 :: "int option \<Rightarrow> byte" where
  "toUint8 v = (case v of None \<Rightarrow> 0 | Some n \<Rightarrow> of_int n)"

text \<open>
  \<open>new Uint8Array(key.match(/.{1,2}/g)!.map((byte) => Number.parseInt(byte, 16)))\<close>;
  calling \<open>map\<close> on \<open>null\<close> is a \<open>TypeError\<close>.
\<close>

definition hexToBytes :: "string \<Rightarrow> js_error + byte list" where
  "hexToBytes key =
     (case match_pairs key of
        [] \<Rightarrow> Inl (TypeError ''Cannot read properties of null (reading 'map')'')
      | ps \<Rightarrow> Inr (map (\<lambda>p. toUint8 (parseInt16 p)) ps))"

subsection \<open>Base64\<close>

text \<open>
  The base64 alphabet: \<open>A\<close> to \<open>Z\<close>, \<open>a\<close> to \<open>z\<close>, \<open>0\<close> to \<open>9\<close>, \<open>+\<close> and \<open>/\<close>,
  given by character codes.
\<close>

definition b64_code :: "nat \<Rightarrow> nat" where
  "b64_code n =
     (let m = n mod 64
      in if m < 26 then 65 + m
         else if m < 52 then 71 + m
         else if m < 62 then m - 4
         else if m = 62 then 43 else 47)"

definition b64_char :: "nat \<Rightarrow> char" where
  "b64_char n = char_of (b64_code n)"

fun b64_encode :: "nat list \<Rightarrow> string" where
  "b64_encode (a # b # c # rest) =
     [b64_char (a div 4), b64_char ((a mod 4) * 16 + b div 16),
      b64_char ((b mod 16) * 4 + c div 64), b64_char (c mod 64)] @ b64_encode rest"
| "b64_encode [a, b] =
     [b64_char (a div 4), b64_char ((a mod 4) * 16 + b div 16),
      b64_char ((b mod 16) * 4), CHR ''='']"
| "b64_encode [a] = [b64_char (a div 4), b64_char ((a mod 4) * 16), CHR ''='', CHR ''='']"
| "b64_encode [] = []"

text \<open>\<open>btoa\<close> of a string whose code units are all below 256.\<close>

definition btoa :: "string \<Rightarrow> string" where
  "btoa s = b64_encode (map of_char s)"

definition b64_index :: "char \<Rightarrow> nat option" where
  "b64_index c =
     (let n = of_char c :: nat
      in if 65 \<le> n \<and> n \<le> 90 then Some (n - 65)
         else if 97 \<le> n \<and> n \<le> 122 then Some (n - 71)
         else if 48 \<le> n \<and> n \<le> 57 then Some (n + 4)
         else if n = 43 then Some 62
         else if n = 47 then Some 63
         else None)"

fun b64_groups :: "nat list \<Rightarrow> nat list" where
  "b64_groups (p # q # r # s # rest) =
     [p * 4 + q div 16, (q mod 16) * 16 + r div 4, (r mod 4) * 64 + s] @ b64_groups rest"
| "b64_groups [p, q, r] = [p * 4 + q div 16, (q mod 16) * 16 + r div 4]"
| "b64_groups [p, q] = [p * 4 + q div 16]"
| "b64_groups [p] = []"
| "b64_groups [] = []"

definition isAsciiWhitespace :: "char \<Rightarrow> bool" where
  "isAsciiWhitespace c = (of_char c \<in> {9, 10, 12, 13, 32 :: nat})"

text \<open>Removing one or two trailing \<open>=\<close> when the length is a multiple of four.\<close>

definition strip_padding :: "string \<Rightarrow> string" where
  "strip_padding d =
     (if length d mod 4 = 0 \<and> d \<noteq> [] \<and> last d = CHR ''=''
      then (let d1 = butlast d
            in if d1 \<noteq> [] \<and> last d1 = CHR ''='' then butlast d1 else d1)
      else d)"

text \<open>
  \<open>atob\<close> (the forgiving base64 decoder): white space is dropped, padding is optional,
  a length of 1 modulo 4 or a character outside the alphabet is an
  \<open>InvalidCharacterError\<close>.
\<close>

definition atob :: "string \<Rightarrow> js_error + string" where
  "atob s =
     (let d = strip_padding (filter (\<lambda>c. \<not> isAsciiWhitespace c) s)
      in if length d mod 4 = 1 \<or> (\<exists>c \<in> set d. b64_index c = None)
         then Inl (DOMException ''InvalidCharacterError''
                     ''The string to be decoded is not correctly encoded.'')
         else Inr (map char_of (b64_groups (map (\<lambda>c. the (b64_index c)) d))))"

definition fromCharCodes :: "byte list \<Rightarrow> string" where
  "fromCharCodes bs = map (\<lambda>b. char_of (unat b)) bs"

definition charCodes :: "string \<Rightarrow> byte list" where
  "charCodes s = map (\<lambda>c. of_nat (of_char c)) s"


text \<open>\<open>bufferToBase64\<close> and \<open>base64ToBuffer\<close> (src/unnamed/part_000).\<close>

definition bufferToBase64 :: "byte list \<Rightarrow> string" where
  "bufferToBase64 buffer = btoa (fromCharCodes buffer)"

definition base64ToBuffer :: "string \<Rightarrow> js_error + byte list" where
  "base64ToBuffer base64 =
     (case atob base64 of
        Inl e \<Rightarrow> Inl (Error ''Invalid base64 string'')
      | Inr binaryString \<Rightarrow> Inr (charCodes binaryString))"

section \<open>Single-layer encryptor and decryptor (src/unnamed/part_000)\<close>

definition ENCRYPTION_ALGORITHM :: string where
  "ENCRYPTION_ALGORITHM = ''AES-GCM''"

record encryptionMetadata =
  iv :: string
  algorithm :: string
  originalFileName :: "string option"
  originalFileSize :: "string option"
  originalFileType :: "string option"
  encryptionTimestamp :: "string option"

text \<open>A \<open>File\<close>; its \<open>size\<close> is the number of bytes of its content.\<close>

record js_file =
  file_name :: string
  file_type :: string
  file_lastModified :: nat
  file_content :: "byte list"

definition file_size :: "js_file \<Rightarrow> nat" where
  "file_size f = length (file_content f)"

datatype file_or_blob = IsFile js_file | IsBlob "byte list"

fun arrayBuffer :: "file_or_blob \<Rightarrow> byte list" where
  "arrayBuffer (IsFile f) = file_content f"
| "arrayBuffer (IsBlob b) = b"

definition MAX_ENCRYPTION_SIZE :: nat where
  "MAX_ENCRYPTION_SIZE = 15 * 1024 * 1024"

text \<open>
  The body of the \<open>try\<close> block of \<open>encryptFile\<close>. \<open>g\<close> is the random source and
  \<open>nowIso\<close> the text of \<open>new Date().toISOString()\<close>.
\<close>

definition encryptFile_try ::
  "'k platform \<Rightarrow> js_file \<Rightarrow> string \<Rightarrow> rng \<Rightarrow> string \<Rightarrow> js_error + js_file \<times> encryptionMetadata" where
  "encryptFile_try P f encryptionKey g nowIso =
     (if file_size f > MAX_ENCRYPTION_SIZE
      then Inl (Error (''File is too large for encryption. Maximum size is ''
                       @ show_nat (MAX_ENCRYPTION_SIZE div (1024 * 1024)) @ ''MB.''))
      else
        (let fileBuffer = file_content f in
         bindE (hexToBytes encryptionKey) (\<lambda>keyBytes.
         (let ivBytes = fst (getRandomValues 12 g) in
          bindE (importKey P ENCRYPTION_ALGORITHM keyBytes [''encrypt'']) (\<lambda>key.
          bindE (encrypt P ENCRYPTION_ALGORITHM ivBytes 128 key fileBuffer) (\<lambda>encryptedBuffer.
            Inr (\<lparr> file_name = file_name f @ ''.enc'',
                    file_type = ''application/octet-stream'',
                    file_lastModified = file_lastModified f,
                    file_content = encryptedBuffer \<rparr>,
                 \<lparr> iv = bufferToBase64 ivBytes,
                    algorithm = ENCRYPTION_ALGORITHM,
                    originalFileName = Some (file_name f),
                    originalFileSize = Some (show_nat (file_size f)),
                    originalFileType = Some (file_type f),
                    encryptionTimestamp = Some nowIso \<rparr>)))))))"

text \<open>The \<open>catch\<close> block rethrows every failure as an \<open>Error\<close> with a prefixed message.\<close>

definition encryptFile ::
  "'k platform \<Rightarrow> js_file \<Rightarrow> string \<Rightarrow> rng \<Rightarrow> string \<Rightarrow> js_error + js_file \<times> encryptionMetadata" where
  "encryptFile P f encryptionKey g nowIso =
     (case encryptFile_try P f encryptionKey g nowIso of
        Inl e \<Rightarrow> Inl (Error (''Failed to encrypt file: '' @ message e))
      | Inr r \<Rightarrow> Inr r)"

text \<open>\<open>a || b\<close> on an optional string: \<open>undefined\<close> and the empty string are falsy.\<close>

definition or_else :: "string option \<Rightarrow> string \<Rightarrow> string" where
  "or_else a b = (case a of None \<Rightarrow> b | Some s \<Rightarrow> if s = [] then b else s)"

text \<open>\<open>name.replace(/\.enc$/, "")\<close>.\<close>

definition strip_enc :: "string \<Rightarrow> string" where
  "strip_enc n =
     (if length n \<ge> 4 \<and> drop (length n - 4) n = ''.enc'' then take (length n - 4) n else n)"

text \<open>
  The body of the \<open>try\<close> block of \<open>decryptFile\<close>. \<open>guessMimeType\<close> is passed as
  \<open>guess\<close>, \<open>Date.now()\<close> as \<open>now\<close>.
\<close>

definition decryptFile_try ::
  "'k platform \<Rightarrow> file_or_blob \<Rightarrow> encryptionMetadata \<Rightarrow> string \<Rightarrow> (string \<Rightarrow> string) \<Rightarrow> nat
     \<Rightarrow> js_error + js_file" where
  "decryptFile_try P encryptedFile metadata encryptionKey guess now =
     (if iv metadata = []
      then Inl (Error ''Missing IV in encryption metadata. Cannot decrypt without initialization vector.'')
      else
        bindE (hexToBytes encryptionKey) (\<lambda>keyBytes.
        bindE (base64ToBuffer (iv metadata)) (\<lambda>ivBytes.
        bindE (importKey P ENCRYPTION_ALGORITHM keyBytes [''decrypt'']) (\<lambda>key.
        (let encryptedBuffer = arrayBuffer encryptedFile in
         bindE (decrypt P ENCRYPTION_ALGORITHM ivBytes 128 key encryptedBuffer) (\<lambda>decryptedBuffer.
         (let fileName = or_else (originalFileName metadata)
                           (case encryptedFile of
                              IsFile ef \<Rightarrow> strip_enc (file_name ef)
                            | IsBlob b \<Rightarrow> ''decrypted-file'');
              mimeType = or_else (originalFileType metadata)
                           (or_else (Some (guess fileName)) ''application/octet-stream'')
          in Inr \<lparr> file_name = fileName, file_type = mimeType,
                   file_lastModified = now, file_content = decryptedBuffer \<rparr>)))))))"

definition decryptFile ::
  "'k platform \<Rightarrow> file_or_blob \<Rightarrow> encryptionMetadata \<Rightarrow> string \<Rightarrow> (string \<Rightarrow> string) \<Rightarrow> nat
     \<Rightarrow> js_error + js_file" where
  "decryptFile P encryptedFile metadata encryptionKey guess now =
     (case decryptFile_try P encryptedFile metadata encryptionKey guess now of
        Inl e \<Rightarrow> Inl (Error (''Failed to decrypt file: '' @ message e))
      | Inr r \<Rightarrow> Inr r)"


section \<open>Multi-layer encryptor and decryptor (src/lib/audit.ts)\<close>

subsection \<open>Text helpers\<close>

fun join :: "string \<Rightarrow> string list \<Rightarrow> string" where
  "join sep [] = []"
| "join sep [x] = x"
| "join sep (x # y # ys) = x @ sep @ join sep (y # ys)"

text \<open>\<open>JSON.stringify\<close> of an array of strings: quoted, escaped, comma-separated.\<close>

definition jsonEscape :: "char \<Rightarrow> string" where
  "jsonEscape c =
     (let n = of_char c :: nat
      in if n = 8 then [CHR 0x5C, CHR ''b'']
         else if n = 9 then [CHR 0x5C, CHR ''t'']
         else if n = 10 then [CHR 0x5C, CHR ''n'']
         else if n = 12 then [CHR 0x5C, CHR ''f'']
         else if n = 13 then [CHR 0x5C, CHR ''r'']
         else if n = 34 then [CHR 0x5C, CHR 0x22]
         else if n = 92 then [CHR 0x5C, CHR 0x5C]
         else if n < 32 then [CHR 0x5C, CHR ''u'', CHR ''0'', CHR ''0'', hexDigit (n div 16), hexDigit (n mod 16)]
         else [c])"

definition jsonQuote :: "string \<Rightarrow> string" where
  "jsonQuote s = [CHR 0x22] @ concat (map jsonEscape s) @ [CHR 0x22]"

definition JSON_stringify :: "string list \<Rightarrow> string" where
  "JSON_stringify ks = ''['' @ join '','' (map jsonQuote ks) @ '']''"

text \<open>\<open>s.split(c)\<close> for a one-character separator; the result is never empty.\<close>

fun split_on :: "char \<Rightarrow> string \<Rightarrow> string list" where
  "split_on c [] = [[]]"
| "split_on c (x # xs) =
     (if x = c then [] # split_on c xs
      else (let r = split_on c xs in (x # hd r) # tl r))"

text \<open>The tests \<open>/^[0-9a-f]{32}$/i\<close> and \<open>/^[0-9a-f]{64}$/i\<close>.\<close>

definition isHexOfLength :: "nat \<Rightarrow> string \<Rightarrow> bool" where
  "isHexOfLength n s = (length s = n \<and> list_all isHexChar s)"

subsection \<open>Metadata\<close>

record layer =
  layerAlgorithm :: string
  ivBase64 :: string
  layerIndex :: nat

record multiLayerMetadata =
  version :: string
  layers :: "layer list"
  encryptedLayerKeys :: string
  encryptionId :: string

subsection \<open>Wrapping the layer keys under the primary key\<close>

text \<open>
  The key bytes that \<open>encryptLayerKeys\<close> computes from the primary key (lines 634 to 650):
  32 hex characters are 16 raw bytes, 64 hex characters are 32 bytes cut to 16, anything
  else is hashed with SHA-256 and cut to 16 bytes.
\<close>

definition encryptLayerKeys_keyBuffer :: "'k platform \<Rightarrow> string \<Rightarrow> js_error + byte list" where
  "encryptLayerKeys_keyBuffer P primaryKey =
     (if isHexOfLength 32 primaryKey then hexToBytes primaryKey
      else if isHexOfLength 64 primaryKey
      then bindE (hexToBytes primaryKey) (\<lambda>fullBuffer. Inr (take 16 fullBuffer))
      else (let hashBuffer = digest P ''SHA-256'' (TextEncoder_encode primaryKey)
            in Inr (take 16 hashBuffer)))"

text \<open>The same lines as they are written again in \<open>decryptLayerKeys\<close> (lines 700 to 716).\<close>

definition decryptLayerKeys_keyBuffer :: "'k platform \<Rightarrow> string \<Rightarrow> js_error + byte list" where
  "decryptLayerKeys_keyBuffer P primaryKey =
     (if isHexOfLength 32 primaryKey then hexToBytes primaryKey
      else if isHexOfLength 64 primaryKey
      then bindE (hexToBytes primaryKey) (\<lambda>fullBuffer. Inr (take 16 fullBuffer))
      else (let hashBuffer = digest P ''SHA-256'' (TextEncoder_encode primaryKey)
            in Inr (take 16 hashBuffer)))"

definition encryptLayerKeys ::
  "'k platform \<Rightarrow> string list \<Rightarrow> string \<Rightarrow> rng \<Rightarrow> js_error + string" where
  "encryptLayerKeys P layerKeys primaryKey g =
     bindE (encryptLayerKeys_keyBuffer P primaryKey) (\<lambda>keyBuffer.
     bindE (importKey P ''AES-GCM'' keyBuffer [''encrypt'']) (\<lambda>cryptoKey.
     (let layerKeysJson = JSON_stringify layerKeys;
          ivBytes = fst (getRandomValues 12 g)
      in bindE (encrypt P ''AES-GCM'' ivBytes 128 cryptoKey (TextEncoder_encode layerKeysJson))
           (\<lambda>encrypted. Inr (btoa (fromCharCodes encrypted) @ ''.'' @ btoa (fromCharCodes ivBytes))))))"

text \<open>
  \<open>const [a, b] = s.split(".")\<close>: \<open>b\<close> is \<open>undefined\<close> when there is no dot, and
  \<open>atob(undefined)\<close> decodes the text \<open>undefined\<close>.
\<close>

definition decryptLayerKeys :: "'k platform \<Rightarrow> string \<Rightarrow> string \<Rightarrow> js_error + string list" where
  "decryptLayerKeys P encryptedLayerKeysString primaryKey =
     (let parts = split_on (CHR ''.'') encryptedLayerKeysString;
          encryptedLayerKeysBase64 = hd parts;
          ivB64 = (if length parts > 1 then parts ! 1 else ''undefined'')
      in bindE (atob encryptedLayerKeysBase64) (\<lambda>encStr.
         bindE (atob ivB64) (\<lambda>ivStr.
         bindE (decryptLayerKeys_keyBuffer P primaryKey) (\<lambda>keyBuffer.
         bindE (importKey P ''AES-GCM'' keyBuffer [''decrypt'']) (\<lambda>cryptoKey.
         bindE (decrypt P ''AES-GCM'' (charCodes ivStr) 128 cryptoKey (charCodes encStr))
           (\<lambda>decrypted. JSON_parse P (TextDecoder_decode P decrypted)))))))"

subsection \<open>Encrypting\<close>

definition invalidKeyLength :: "nat \<Rightarrow> js_error" where
  "invalidKeyLength n =
     Error (''Invalid key length: '' @ show_nat (n * 8) @ '' bits. Expected 128 bits.'')"

text \<open>
  One pass of the body of \<open>for (let i = 0; i < LAYERS; i++)\<close>. The state is the current
  data, the layer keys, the layers of the metadata, and the random source.
\<close>

type_synonym enc_state = "byte list \<times> string list \<times> layer list \<times> rng"

definition encryptLayer :: "'k platform \<Rightarrow> nat \<Rightarrow> enc_state \<Rightarrow> js_error + enc_state" where
  "encryptLayer P i st =
     (case st of (currentData, layerKeys, lays, g) \<Rightarrow>
       (let (keyBytes, g1) = getRandomValues 16 g;
            layerKey = hexOf keyBytes
        in bindE (hexToBytes layerKey) (\<lambda>keyBuffer.
           if length keyBuffer \<noteq> 16 then Inl (invalidKeyLength (length keyBuffer))
           else bindE (importKey P ''AES-GCM'' keyBuffer [''encrypt'']) (\<lambda>cryptoKey.
                (let (ivBytes, g2) = getRandomValues 12 g1
                 in bindE (encrypt P ''AES-GCM'' ivBytes 128 cryptoKey currentData) (\<lambda>encryptedData.
                      Inr (encryptedData, layerKeys @ [layerKey],
                           lays @ [\<lparr> layerAlgorithm = ''AES-GCM'',
                                      ivBase64 = btoa (fromCharCodes ivBytes),
                                      layerIndex = i \<rparr>],
                           g2)))))))"

function encryptLayers :: "'k platform \<Rightarrow> nat \<Rightarrow> nat \<Rightarrow> enc_state \<Rightarrow> js_error + enc_state" where
  "encryptLayers P n i st =
     (if i < n
      then (case encryptLayer P i st of Inl e \<Rightarrow> Inl e | Inr st' \<Rightarrow> encryptLayers P n (i + 1) st')
      else Inr st)"
  by pat_completeness auto
termination
  by (relation "measure (\<lambda>(P, n, i, st). n - i)") auto

declare encryptLayers.simps [simp del]

definition LAYERS :: nat where
  "LAYERS = 3"

record multiLayerResult =
  encryptedData :: "byte list"
  layerKeys :: "string list"
  metadata :: multiLayerMetadata

text \<open>\<open>uuid\<close> is the session identifier that \<open>uuidv4()\<close> returns.\<close>

definition multiLayerEncrypt ::
  "'k platform \<Rightarrow> byte list \<Rightarrow> string \<Rightarrow> rng \<Rightarrow> string \<Rightarrow> js_error + multiLayerResult" where
  "multiLayerEncrypt P data primaryKey g uuid =
     bindE (encryptLayers P LAYERS 0 (data, [], [], g)) (\<lambda>st.
       case st of (currentData, keys, lays, g') \<Rightarrow>
         bindE (encryptLayerKeys P keys primaryKey g') (\<lambda>wrapped.
           Inr \<lparr> encryptedData = currentData,
                 layerKeys = keys,
                 metadata = \<lparr> version = ''1.0'', layers = lays,
                              encryptedLayerKeys = wrapped, encryptionId = uuid \<rparr> \<rparr>))"

subsection \<open>Decrypting\<close>

text \<open>
  \<open>for (let i = metadata.layers.length - 1; i >= 0; i--)\<close>: the first argument counts the
  layers still to undo, so the layer handled is the one at index \<open>i\<close>. A missing layer key
  is \<open>undefined\<close>, and calling \<open>match\<close> on it is a \<open>TypeError\<close>.
\<close>

fun decryptLayers ::
  "'k platform \<Rightarrow> layer list \<Rightarrow> string list \<Rightarrow> nat \<Rightarrow> byte list \<Rightarrow> js_error + byte list" where
  "decryptLayers P lays keys 0 currentData = Inr currentData"
| "decryptLayers P lays keys (Suc i) currentData =
     (let lay = lays ! i in
      if i \<ge> length keys
      then Inl (TypeError ''Cannot read properties of undefined (reading 'match')'')
      else
        bindE (hexToBytes (keys ! i)) (\<lambda>keyBuffer.
        if length keyBuffer \<noteq> 16 then Inl (invalidKeyLength (length keyBuffer))
        else bindE (importKey P (layerAlgorithm lay) keyBuffer [''decrypt'']) (\<lambda>cryptoKey.
             bindE (atob (ivBase64 lay)) (\<lambda>ivString.
             bindE (decrypt P (layerAlgorithm lay) (charCodes ivString) 128 cryptoKey currentData)
               (\<lambda>decryptedData. decryptLayers P lays keys i decryptedData)))))"

definition multiLayerDecrypt ::
  "'k platform \<Rightarrow> byte list \<Rightarrow> multiLayerMetadata \<Rightarrow> string \<Rightarrow> js_error + byte list" where
  "multiLayerDecrypt P encrypted md primaryKey =
     bindE (decryptLayerKeys P (encryptedLayerKeys md) primaryKey) (\<lambda>keys.
       decryptLayers P (layers md) keys (length (layers md)) encrypted)"


section \<open>Numbers\<close>

text \<open>
  Arithmetic on \<open>number\<close> is binary64 arithmetic: the exact result rounded to the nearest
  value with a 53-bit significand, ties to even, with gradual underflow below \<open>2 powi -1022\<close>
  and overflow to an infinity from \<open>2 ^ 1024\<close> on.
\<close>

definition round_half_even :: "rat \<Rightarrow> int" where
  "round_half_even x =
     (let f = \<lfloor>x\<rfloor>; d = x - of_int f
      in if d < 1 / 2 then f
         else if d > 1 / 2 then f + 1
         else if even f then f else f + 1)"

text \<open>For \<open>q > 0\<close>, the exponent \<open>e\<close> with \<open>2 powi e \<le> q < 2 powi (e + 1)\<close>.\<close>

definition floorlog2 :: "rat \<Rightarrow> int" where
  "floorlog2 q =
     (let (a, b) = quotient_of q; d = bitlen a - bitlen b
      in if 2 powi d \<le> q then d else d - 1)"

definition fl :: "rat \<Rightarrow> jsnum" where
  "fl q =
     (if q = 0 then Fin 0
      else (let e = max (floorlog2 \<bar>q\<bar> - 52) (- 1074);
                m = round_half_even (q / 2 powi e);
                r = of_int m * 2 powi e
            in if \<bar>r\<bar> \<ge> 2 ^ 1024 then (if q > 0 then PInf else NInf) else Fin r))"

fun js_neg :: "jsnum \<Rightarrow> jsnum" where
  "js_neg (Fin q) = Fin (- q)"
| "js_neg PInf = NInf"
| "js_neg NInf = PInf"
| "js_neg NaN = NaN"

fun js_sgn :: "jsnum \<Rightarrow> int" where
  "js_sgn (Fin q) = (if q > 0 then 1 else if q < 0 then - 1 else 0)"
| "js_sgn PInf = 1"
| "js_sgn NInf = - 1"
| "js_sgn NaN = 0"

definition js_add :: "jsnum \<Rightarrow> jsnum \<Rightarrow> jsnum" where
  "js_add a b =
     (case (a, b) of
        (Fin x, Fin y) \<Rightarrow> fl (x + y)
      | (Fin x, _) \<Rightarrow> b
      | (_, Fin y) \<Rightarrow> a
      | _ \<Rightarrow> if a = b then a else NaN)"

definition js_sub :: "jsnum \<Rightarrow> jsnum \<Rightarrow> jsnum" where
  "js_sub a b = js_add a (js_neg b)"

definition signed_inf :: "int \<Rightarrow> jsnum" where
  "signed_inf s = (if s = 0 then NaN else if s > 0 then PInf else NInf)"

definition js_mul :: "jsnum \<Rightarrow> jsnum \<Rightarrow> jsnum" where
  "js_mul a b =
     (case (a, b) of
        (Fin x, Fin y) \<Rightarrow> fl (x * y)
      | _ \<Rightarrow> if a = NaN \<or> b = NaN then NaN else signed_inf (js_sgn a * js_sgn b))"

text \<open>Division; a zero divisor counts as \<open>+0\<close>.\<close>

definition js_div :: "jsnum \<Rightarrow> jsnum \<Rightarrow> jsnum" where
  "js_div a b =
     (if a = NaN \<or> b = NaN then NaN
      else case (a, b) of
        (Fin x, Fin y) \<Rightarrow> if y = 0 then signed_inf (js_sgn a) else fl (x / y)
      | (Fin x, _) \<Rightarrow> Fin 0
      | (_, Fin y) \<Rightarrow> signed_inf (js_sgn a * (if y < 0 then - 1 else 1))
      | _ \<Rightarrow> NaN)"

text \<open>\<open>Math.pow(b, i)\<close> for a finite base and a loop index \<open>i\<close>.\<close>

definition js_pow :: "rat \<Rightarrow> nat \<Rightarrow> jsnum" where
  "js_pow b i = fl (b ^ i)"

fun js_round :: "jsnum \<Rightarrow> jsnum" where
  "js_round (Fin q) = Fin (of_int \<lfloor>q + 1 / 2\<rfloor>)"
| "js_round x = x"

fun js_floor :: "jsnum \<Rightarrow> jsnum" where
  "js_floor (Fin q) = Fin (of_int \<lfloor>q\<rfloor>)"
| "js_floor x = x"

text \<open>The remainder \<open>a % b\<close>: it has the sign of \<open>a\<close>.\<close>

definition trunc :: "rat \<Rightarrow> int" where
  "trunc q = (if q \<ge> 0 then \<lfloor>q\<rfloor> else \<lceil>q\<rceil>)"

fun js_rem :: "jsnum \<Rightarrow> jsnum \<Rightarrow> jsnum" where
  "js_rem (Fin a) (Fin b) = (if b = 0 then NaN else Fin (a - b * of_int (trunc (a / b))))"
| "js_rem (Fin a) PInf = Fin a"
| "js_rem (Fin a) NInf = Fin a"
| "js_rem a b = NaN"

fun js_gt0 :: "jsnum \<Rightarrow> bool" where
  "js_gt0 (Fin q) = (q > 0)"
| "js_gt0 PInf = True"
| "js_gt0 x = False"

text \<open>Storing a number into a \<open>Uint8Array\<close>.\<close>

fun num_toUint8 :: "jsnum \<Rightarrow> byte" where
  "num_toUint8 (Fin q) = of_int (trunc q)"
| "num_toUint8 x = 0"

section \<open>Secret splitter and combiner (src/lib/audit.ts)\<close>

text \<open>\<open>new DataView(buffer).getUint32(0)\<close>: four bytes, big-endian.\<close>

definition getUint32 :: "byte list \<Rightarrow> jsnum" where
  "getUint32 bs = Fin (of_int (foldl (\<lambda>acc b. 256 * acc + uint b) 0 (take 4 bs)))"

text \<open>The loop \<open>for (let i = 1; i < threshold; i++)\<close> drawing one coefficient per pass.\<close>

fun randomCoefficients :: "nat \<Rightarrow> rng \<Rightarrow> jsnum list" where
  "randomCoefficients 0 g = []"
| "randomCoefficients (Suc n) g =
     (let (randomValue, g1) = getRandomValues 4 g
      in getUint32 randomValue # randomCoefficients n g1)"

definition secretValue :: "byte list \<Rightarrow> jsnum" where
  "secretValue secretBytes =
     fold (\<lambda>i acc. js_add acc (js_mul (Fin (of_int (uint (secretBytes ! i)))) (js_pow 256 i)))
          [0..<length secretBytes] (Fin 0)"

definition evalPolynomial :: "jsnum list \<Rightarrow> nat \<Rightarrow> jsnum" where
  "evalPolynomial coefficients x =
     fold (\<lambda>i y. js_add y (js_mul (coefficients ! i) (js_pow (of_int (int x)) i)))
          [0..<length coefficients] (Fin 0)"

definition splitKey :: "'k platform \<Rightarrow> string \<Rightarrow> nat \<Rightarrow> nat \<Rightarrow> rng \<Rightarrow> string list" where
  "splitKey P secret numShares threshold g =
     (let secretBytes = TextEncoder_encode secret;
          coefficients = secretValue secretBytes # randomCoefficients (threshold - 1) g
      in map (\<lambda>x. String_of P (Fin (of_int (int x))) @ '':'' @ String_of P (evalPolynomial coefficients x))
             [1..<numShares + 1])"

text \<open>
  \<open>const [x, y] = share.split(":").map(Number)\<close>. Without a colon \<open>y\<close> is \<open>undefined\<close>,
  which every arithmetic operation of \<open>combineShares\<close> turns into \<open>NaN\<close>.
\<close>

definition parseShare :: "'k platform \<Rightarrow> string \<Rightarrow> jsnum \<times> jsnum" where
  "parseShare P share =
     (case map (Number_of P) (split_on (CHR '':'') share) of
        [] \<Rightarrow> (NaN, NaN)
      | [x] \<Rightarrow> (x, NaN)
      | x # y # rest \<Rightarrow> (x, y))"

text \<open>The inner loop over \<open>j\<close>: one Lagrange term.\<close>

definition lagrangeTerm :: "(jsnum \<times> jsnum) list \<Rightarrow> nat \<Rightarrow> nat \<Rightarrow> jsnum" where
  "lagrangeTerm points threshold i =
     fold (\<lambda>j term.
             if i \<noteq> j
             then js_mul term (js_div (fst (points ! j))
                                      (js_sub (fst (points ! j)) (fst (points ! i))))
             else term)
          [0..<threshold] (snd (points ! i))"

definition interpolate :: "(jsnum \<times> jsnum) list \<Rightarrow> nat \<Rightarrow> jsnum" where
  "interpolate points threshold =
     fold (\<lambda>i secret. js_add secret (lagrangeTerm points threshold i)) [0..<threshold] (Fin 0)"

text \<open>
  \<open>while (tempSecret > 0) { secretBytes.push(tempSecret % 256); tempSecret =
  Math.floor(tempSecret / 256) }\<close>. The loop does not end when \<open>tempSecret\<close> is
  \<open>Infinity\<close>; \<open>None\<close> is that outcome.
\<close>

partial_function (option) toBytesLoop :: "jsnum \<Rightarrow> jsnum list \<Rightarrow> jsnum list option" where
  "toBytesLoop tempSecret secretBytes =
     (if js_gt0 tempSecret
      then toBytesLoop (js_floor (js_div tempSecret (Fin 256)))
                       (secretBytes @ [js_rem tempSecret (Fin 256)])
      else Some secretBytes)"

declare toBytesLoop.simps [code]

definition notEnoughShares :: "nat \<Rightarrow> nat \<Rightarrow> js_error" where
  "notEnoughShares threshold n =
     Error (''Not enough shares. Need at least '' @ show_nat threshold
            @ '', but got '' @ show_nat n)"

definition combineShares :: "'k platform \<Rightarrow> string list \<Rightarrow> nat \<Rightarrow> (js_error + string) option" where
  "combineShares P shares threshold =
     (if length shares < threshold
      then Some (Inl (notEnoughShares threshold (length shares)))
      else (let points = map (parseShare P) shares;
                secret = interpolate points threshold
            in map_option (\<lambda>secretBytes. Inr (TextDecoder_decode P (map num_toUint8 secretBytes)))
                 (toBytesLoop (js_round secret) [])))"

section \<open>Laws of the platform services\<close>

text \<open>
  What the code relies on from the services it calls. AES-GCM with a 128-bit key and a
  12-byte IV: a raw key of 16 bytes imports for either use, encryption succeeds, and
  decryption under the same key and IV returns the plaintext.
\<close>

definition aes_gcm_correct :: "'k platform \<Rightarrow> bool" where
  "aes_gcm_correct P \<longleftrightarrow>
     (\<forall>raw ivb m. length raw = 16 \<and> length ivb = 12 \<longrightarrow>
        (\<exists>ke kd c. importKey P ''AES-GCM'' raw [''encrypt''] = Inr ke
                 \<and> importKey P ''AES-GCM'' raw [''decrypt''] = Inr kd
                 \<and> encrypt P ''AES-GCM'' ivb 128 ke m = Inr c
                 \<and> decrypt P ''AES-GCM'' ivb 128 kd c = Inr m))"

text \<open>A SHA-256 digest has 32 bytes.\<close>

definition sha256_length :: "'k platform \<Rightarrow> bool" where
  "sha256_length P \<longleftrightarrow> (\<forall>m. length (digest P ''SHA-256'' m) = 32)"

text \<open>\<open>TextDecoder\<close> returns an ASCII string from its UTF-8 encoding.\<close>

definition isAscii :: "string \<Rightarrow> bool" where
  "isAscii s = list_all (\<lambda>c. of_char c < (128 :: nat)) s"

definition utf8_decode_ascii :: "'k platform \<Rightarrow> bool" where
  "utf8_decode_ascii P \<longleftrightarrow>
     (\<forall>s. isAscii s \<longrightarrow> TextDecoder_decode P (TextEncoder_encode s) = s)"

text \<open>\<open>JSON.parse\<close> returns a list of hexadecimal strings from its \<open>JSON.stringify\<close> text.\<close>

definition json_roundtrip_hex :: "'k platform \<Rightarrow> bool" where
  "json_roundtrip_hex P \<longleftrightarrow>
     (\<forall>ks. list_all (list_all isHexChar) ks \<longrightarrow> JSON_parse P (JSON_stringify ks) = Inr ks)"

text \<open>What one layer needs for its decryption step to succeed.\<close>

definition layer_ok :: "'k platform \<Rightarrow> layer \<Rightarrow> string \<Rightarrow> bool" where
  "layer_ok P lay k \<longleftrightarrow>
     (\<exists>kb ivb kd. k = hexOf kb \<and> length kb = 16
        \<and> layerAlgorithm lay = ''AES-GCM''
        \<and> ivBase64 lay = btoa (fromCharCodes ivb) \<and> length ivb = 12
        \<and> importKey P ''AES-GCM'' kb [''decrypt''] = Inr kd)"


section \<open>The raw bytes of a hexadecimal key\<close>

text \<open>
  The bytes that a string of hex digits denotes, two digits per byte, high digit first.
\<close>

definition hexBytes :: "string \<Rightarrow> byte list" where
  "hexBytes s =
     map (\<lambda>i. of_nat (16 * hexVal (s ! (2 * i)) + hexVal (s ! (2 * i + 1)))) [0..<length s div 2]"

text \<open>The 6-bit values of base64 text.\<close>

definition b64_sextets :: "string \<Rightarrow> nat list" where
  "b64_sextets d = map (\<lambda>c. the (b64_index c)) d"

section \<open>A small platform\<close>

text \<open>
  A platform that satisfies the laws, for concrete runs: the cipher appends a 16-byte
  tag made of the key and the IV and checks it on decryption; the decoder reads each byte
  as one character; the JSON parser returns the quoted segments of its input; numbers are
  read and printed as non-negative decimal integers, where they agree with \<open>Number\<close> and
  with template literals for integers below \<open>10 ^ 21\<close>.
\<close>

definition demo_tag :: "byte list \<Rightarrow> byte list \<Rightarrow> byte list" where
  "demo_tag k ivb = take 16 (k @ ivb)"

definition demo_importKey :: "string \<Rightarrow> byte list \<Rightarrow> string list \<Rightarrow> js_error + byte list" where
  "demo_importKey alg raw usages =
     (if length raw \<in> {16, 24, 32} then Inr raw
      else Inl (DOMException ''DataError'' ''Invalid key length''))"

definition demo_encrypt ::
  "string \<Rightarrow> byte list \<Rightarrow> nat \<Rightarrow> byte list \<Rightarrow> byte list \<Rightarrow> js_error + byte list" where
  "demo_encrypt alg ivb tagLength k m = Inr (m @ demo_tag k ivb)"

definition demo_decrypt ::
  "string \<Rightarrow> byte list \<Rightarrow> nat \<Rightarrow> byte list \<Rightarrow> byte list \<Rightarrow> js_error + byte list" where
  "demo_decrypt alg ivb tagLength k c =
     (let t = demo_tag k ivb; n = length c - length t
      in if length t \<le> length c \<and> drop n c = t then Inr (take n c)
         else Inl (DOMException ''OperationError'' ''The operation failed''))"

definition demo_digest :: "string \<Rightarrow> byte list \<Rightarrow> byte list" where
  "demo_digest alg m = take 32 (m @ replicate 32 0)"

fun odd_elems :: "'a list \<Rightarrow> 'a list" where
  "odd_elems (x # y # r) = y # odd_elems r"
| "odd_elems [x] = []"
| "odd_elems [] = []"

definition demo_JSON_parse :: "string \<Rightarrow> js_error + string list" where
  "demo_JSON_parse s = Inr (odd_elems (split_on (CHR 0x22) s))"

function show_dec :: "int \<Rightarrow> string" where
  "show_dec n =
     (if n < 10 then [hexDigit (nat n)]
      else show_dec (n div 10) @ [hexDigit (nat (n mod 10))])"
  by pat_completeness auto
termination
  by (relation "measure nat") auto

declare show_dec.simps [simp del]

definition demo_Number :: "string \<Rightarrow> jsnum" where
  "demo_Number s =
     (if s \<noteq> [] \<and> list_all (\<lambda>c. c \<in> set ''0123456789'') s
      then fl (of_int (foldl (\<lambda>acc d. 10 * acc + int (hexVal d)) 0 s))
      else NaN)"

definition demo_String :: "jsnum \<Rightarrow> string" where
  "demo_String x =
     (case x of Fin q \<Rightarrow> show_dec \<lfloor>q\<rfloor> | PInf \<Rightarrow> ''Infinity''
      | NInf \<Rightarrow> ''-Infinity'' | NaN \<Rightarrow> ''NaN'')"

definition demo :: "(byte list) platform" where
  "demo = \<lparr> importKey = demo_importKey,
            encrypt = demo_encrypt,
            decrypt = demo_decrypt,
            digest = demo_digest,
            TextDecoder_decode = fromCharCodes,
            JSON_parse = demo_JSON_parse,
            Number_of = demo_Number,
            String_of = demo_String \<rparr>"

text \<open>A random source for concrete runs: the byte at position \<open>i\<close> is \<open>7 * i\<close> modulo 256.\<close>

definition demo_rng :: rng where
  "demo_rng i = of_nat (7 * i)"

text \<open>Two files for concrete runs: one byte over the size limit, and ten bytes.\<close>

definition big_file :: js_file where
  "big_file = \<lparr> file_name = ''big.bin'', file_type = ''application/octet-stream'',
                file_lastModified = 0, file_content = replicate 15728641 0 \<rparr>"

definition small_file :: js_file where
  "small_file = \<lparr> file_name = ''ten.bin'', file_type = ''application/octet-stream'',
                  file_lastModified = 0, file_content = [0, 1, 2, 3, 4, 5, 6, 7, 8, 9] \<rparr>"


text \<open>
  A concrete run of the multi-layer encryptor on the small platform: the buffer
  \<open>[1, 2, 3]\<close> under the passphrase \<open>correct horse\<close>.
\<close>

definition demo_result :: multiLayerResult where
  "demo_result =
     projr (multiLayerEncrypt demo [1, 2, 3] ''correct horse'' demo_rng ''session-1'')"

section \<open>Hexadecimal and base64 round trips\<close>




lemma hexChar_props:
  assumes "isHexChar c"
  shows "\<not> isWhiteSpace c" "\<not> isLineTerminator c" "c \<noteq> CHR ''-''" "c \<noteq> CHR ''+''"
        "c \<noteq> CHR ''x''" "c \<noteq> CHR ''X''" "of_char c < (128::nat)" "hexVal c < 16"
  using assms by (auto simp: isHexChar_def isWhiteSpace_def isLineTerminator_def hexVal_def)

lemma parseInt16_pair:
  assumes "isHexChar c" "isHexChar d"
  shows "parseInt16 [c, d] = Some (int (16 * hexVal c + hexVal d))"
  using assms hexChar_props[OF assms(1)] hexChar_props[OF assms(2)]
  by (simp add: parseInt16_def hexNumber_def Let_def)

lemma hexBytes_Nil: "hexBytes [] = []" by (simp add: hexBytes_def)

lemma hexBytes_Cons2: "hexBytes (c # d # s) = of_nat (16 * hexVal c + hexVal d) # hexBytes s"
proof -
  have "[0..<Suc (length s div 2)] = 0 # map Suc [0..<length s div 2]"
    by (simp add: upt_conv_Cons map_Suc_upt del: upt_Suc)
  then show ?thesis by (simp add: hexBytes_def o_def)
qed

lemma match_pairs_hex:
  assumes "list_all isHexChar s" "even (length s)"
  shows "map (\<lambda>p. toUint8 (parseInt16 p)) (match_pairs s) = hexBytes s"
  using assms
proof (induction s rule: match_pairs.induct)
  case 1 then show ?case by (simp add: hexBytes_Nil)
next
  case (2 c) then show ?case by simp
next
  case (3 c d rest)
  then show ?case
    by (simp add: hexChar_props parseInt16_pair hexBytes_Cons2 toUint8_def)
qed

lemma match_pairs_hex_ne:
  assumes "list_all isHexChar s" "s \<noteq> []"
  shows "match_pairs s \<noteq> []"
  using assms by (cases s rule: match_pairs.cases) (auto simp: hexChar_props)

lemma hexToBytes_hex:
  assumes "list_all isHexChar s" "even (length s)" "s \<noteq> []"
  shows "hexToBytes s = Inr (hexBytes s)"
proof -
  from match_pairs_hex_ne[OF assms(1,3)] obtain p ps where ps: "match_pairs s = p # ps"
    by (cases "match_pairs s") auto
  show ?thesis
    unfolding hexToBytes_def using match_pairs_hex[OF assms(1,2)] by (simp add: ps)
qed

lemma length_hexBytes: "length (hexBytes s) = length s div 2" by (simp add: hexBytes_def)



lemma hexVal_hexDigit: "n < 16 \<Longrightarrow> hexVal (hexDigit n) = n"
proof -
  have "list_all (\<lambda>n. hexVal (hexDigit n) = n) [0..<16]" by code_simp
  then show "n < 16 \<Longrightarrow> hexVal (hexDigit n) = n" by (simp add: list_all_iff)
qed

lemma isHexChar_hexDigit: "isHexChar (hexDigit n)"
proof -
  have "list_all (\<lambda>n. isHexChar (hexDigit n)) [0..<16]" by code_simp
  then have "isHexChar (hexDigit (n mod 16))" by (simp add: list_all_iff)
  then show ?thesis by (simp add: hexDigit_def)
qed

lemma hexOf_Cons: "hexOf (b # bs) = hexDigit (unat b div 16) # hexDigit (unat b mod 16) # hexOf bs"
  by (simp add: hexOf_def toHex2_def)

lemma hexOf_hex: "list_all isHexChar (hexOf bs)"
  by (induction bs) (simp_all add: hexOf_Cons isHexChar_hexDigit, simp add: hexOf_def)

lemma length_hexOf: "length (hexOf bs) = 2 * length bs"
  by (induction bs) (simp_all add: hexOf_Cons, simp add: hexOf_def)

lemma byte_div_mod: "of_nat (16 * (unat b div 16) + unat b mod 16) = (b :: byte)"
  by simp

lemma unat_byte_div16: "unat (b::byte) div 16 < 16"
proof -
  have "unat b < 256" using unsigned_less[of b, where ?'a=nat] by simp
  then show ?thesis by simp
qed

lemma hexBytes_hexOf: "hexBytes (hexOf bs) = bs"
proof (induction bs)
  case Nil then show ?case by (simp add: hexOf_def hexBytes_Nil)
next
  case (Cons b bs)
  then show ?case
    by (simp add: hexOf_Cons hexBytes_Cons2 hexVal_hexDigit unat_byte_div16)
qed

lemma hexToBytes_hexOf: "bs \<noteq> [] \<Longrightarrow> hexToBytes (hexOf bs) = Inr bs"
proof -
  assume ne: "bs \<noteq> []"
  have "hexOf bs \<noteq> []" using ne length_hexOf[of bs] by (cases bs) auto
  then show ?thesis
    using hexToBytes_hex[OF hexOf_hex, of bs] by (simp add: length_hexOf hexBytes_hexOf)
qed



lemma b64_code_lt: "b64_code n < 256"
proof -
  have "n mod 64 < 64" by simp
  then show ?thesis unfolding b64_code_def Let_def by auto
qed

lemma of_char_b64_char: "of_char (b64_char n) = b64_code n"
  using b64_code_lt[of n] by (simp add: b64_char_def)

lemma b64_index_b64_char: "b64_index (b64_char n) = Some (n mod 64)"
proof -
  have "n mod 64 < 64" by simp
  then show ?thesis
    unfolding b64_index_def of_char_b64_char b64_code_def Let_def by auto
qed

lemma b64_code_neq: "b64_code n \<noteq> 61" "b64_code n \<noteq> 46" "b64_code n \<notin> {9, 10, 12, 13, 32}"
proof -
  have "n mod 64 < 64" by simp
  then show "b64_code n \<noteq> 61" "b64_code n \<noteq> 46" "b64_code n \<notin> {9, 10, 12, 13, 32}"
    unfolding b64_code_def Let_def by auto
qed

lemma b64_char_props:
  "b64_index (b64_char n) = Some (n mod 64)" "b64_char n \<noteq> CHR ''=''" "b64_char n \<noteq> CHR ''.''"
  "\<not> isAsciiWhitespace (b64_char n)"
proof -
  show "b64_index (b64_char n) = Some (n mod 64)" by (rule b64_index_b64_char)
  show "b64_char n \<noteq> CHR ''=''"
  proof
    assume "b64_char n = CHR ''=''"
    then have "of_char (b64_char n) = (of_char (CHR ''='') :: nat)" by simp
    then show False using b64_code_neq(1)[of n] by (simp add: of_char_b64_char)
  qed
  show "b64_char n \<noteq> CHR ''.''"
  proof
    assume "b64_char n = CHR ''.''"
    then have "of_char (b64_char n) = (of_char (CHR ''.'') :: nat)" by simp
    then show False using b64_code_neq(2)[of n] by (simp add: of_char_b64_char)
  qed
  show "\<not> isAsciiWhitespace (b64_char n)"
    using b64_code_neq(3)[of n] by (simp add: isAsciiWhitespace_def of_char_b64_char)
qed

lemma eq_not_ws: "\<not> isAsciiWhitespace (CHR ''='')"
  by (simp add: isAsciiWhitespace_def)

lemma b64_encode_chars:
  "c \<in> set (b64_encode xs) \<Longrightarrow> c = CHR ''='' \<or> (\<exists>n. c = b64_char n)"
  by (induction xs arbitrary: c rule: b64_encode.induct) auto

lemma b64_encode_no_ws: "filter (\<lambda>c. \<not> isAsciiWhitespace c) (b64_encode xs) = b64_encode xs"
proof -
  have "\<forall>c \<in> set (b64_encode xs). \<not> isAsciiWhitespace c"
    using b64_encode_chars b64_char_props(4) eq_not_ws by blast
  then show ?thesis by (simp add: filter_id_conv)
qed

lemma b64_encode_no_dot: "CHR ''.'' \<notin> set (b64_encode xs)"
proof
  assume "CHR ''.'' \<in> set (b64_encode xs)"
  from b64_encode_chars[OF this] obtain n where "CHR ''.'' = b64_char n" by auto
  then show False using b64_char_props(3)[of n] by simp
qed

lemma length_b64_encode: "length (b64_encode xs) mod 4 = 0"
  by (induction xs rule: b64_encode.induct) auto

lemma b64_encode_ne: "xs \<noteq> [] \<Longrightarrow> b64_encode xs \<noteq> []"
  by (cases xs rule: b64_encode.cases) auto

lemma strip_padding_append4:
  assumes "length p = 4" "r \<noteq> []" "length r mod 4 = 0"
  shows "strip_padding (p @ r) = p @ strip_padding r"
proof -
  from assms have "length r \<noteq> 0" by simp
  with assms(3) have len: "length r \<ge> 4" by presburger
  then have b1: "butlast r \<noteq> []" by (cases r rule: rev_cases) auto
  show ?thesis
    using assms b1 by (simp add: strip_padding_def Let_def butlast_append)
qed

lemma decode_core:
  assumes "\<forall>x \<in> set xs. x < 256"
  shows "length (strip_padding (b64_encode xs)) mod 4 \<noteq> 1 \<and>
         (\<forall>c \<in> set (strip_padding (b64_encode xs)). b64_index c \<noteq> None) \<and>
         b64_groups (b64_sextets (strip_padding (b64_encode xs))) = xs"
  using assms
proof (induction xs rule: b64_encode.induct)
  case (1 a b c rest)
  let ?p = "[b64_char (a div 4), b64_char ((a mod 4) * 16 + b div 16),
      b64_char ((b mod 16) * 4 + c div 64), b64_char (c mod 64)]"
  have abc: "a < 256" "b < 256" "c < 256" using 1 by auto
  have m1: "(a div 4) mod 64 = a div 4" using abc by simp
  have m2: "((a mod 4) * 16 + b div 16) mod 64 = (a mod 4) * 16 + b div 16"
    using abc by (simp add: mod_less)
  have m3: "((b mod 16) * 4 + c div 64) mod 64 = (b mod 16) * 4 + c div 64"
    using abc by (simp add: mod_less)
  have sx: "b64_sextets ?p = [a div 4, (a mod 4) * 16 + b div 16, (b mod 16) * 4 + c div 64, c mod 64]"
    by (simp add: b64_sextets_def b64_char_props m1 m2 m3)
  have g: "b64_groups ([a div 4, (a mod 4) * 16 + b div 16, (b mod 16) * 4 + c div 64, c mod 64] @ ys)
            = [a, b, c] @ b64_groups ys" for ys
    using abc by simp
  have idx: "\<forall>c \<in> set ?p. b64_index c \<noteq> None" by (simp add: b64_char_props)
  show ?case
  proof (cases "rest = []")
    case True
    have "strip_padding ?p = ?p" by (simp add: strip_padding_def b64_char_props)
    then show ?thesis using True sx g[of "[]"] idx by simp
  next
    case False
    have st: "strip_padding (b64_encode (a # b # c # rest)) = ?p @ strip_padding (b64_encode rest)"
      using strip_padding_append4[of ?p "b64_encode rest"] False
      by (simp add: b64_encode_ne length_b64_encode)
    have ih: "length (strip_padding (b64_encode rest)) mod 4 \<noteq> 1 \<and>
         (\<forall>c \<in> set (strip_padding (b64_encode rest)). b64_index c \<noteq> None) \<and>
         b64_groups (b64_sextets (strip_padding (b64_encode rest))) = rest"
      using 1 by simp
    have sx2: "b64_sextets (?p @ strip_padding (b64_encode rest))
       = [a div 4, (a mod 4) * 16 + b div 16, (b mod 16) * 4 + c div 64, c mod 64]
          @ b64_sextets (strip_padding (b64_encode rest))"
      using sx by (simp add: b64_sextets_def)
    show ?thesis
      unfolding st sx2 g using ih idx by (auto simp: mod_Suc)
  qed
next
  case (2 a b)
  have ab: "a < 256" "b < 256" using 2 by auto
  have m2: "((a mod 4) * 16 + b div 16) mod 64 = (a mod 4) * 16 + b div 16"
    using ab by (simp add: mod_less)
  have m3: "((b mod 16) * 4) mod 64 = (b mod 16) * 4" by (simp add: mod_less)
  have st: "strip_padding (b64_encode [a, b]) = [b64_char (a div 4), b64_char ((a mod 4) * 16 + b div 16),
      b64_char ((b mod 16) * 4)]"
    by (simp add: strip_padding_def b64_char_props)
  show ?case unfolding st using ab
    by (simp add: b64_sextets_def b64_char_props m2 m3)
next
  case (3 a)
  have a: "a < 256" using 3 by auto
  have m2: "((a mod 4) * 16) mod 64 = (a mod 4) * 16" by (simp add: mod_less)
  have st: "strip_padding (b64_encode [a]) = [b64_char (a div 4), b64_char ((a mod 4) * 16)]"
    by (simp add: strip_padding_def b64_char_props)
  show ?case unfolding st using a
    by (simp add: b64_sextets_def b64_char_props m2)
next
  case 4
  show ?case by (simp add: strip_padding_def b64_sextets_def)
qed

lemma atob_btoa: "atob (btoa s) = Inr s"
proof -
  have lt: "\<forall>x \<in> set (map of_char s :: nat list). x < 256" by simp
  note core = decode_core[OF lt]
  have "map char_of (map of_char s :: nat list) = s" by (simp add: o_def)
  then show ?thesis
    using core unfolding atob_def btoa_def b64_sextets_def
    by (simp add: b64_encode_no_ws Let_def)
qed

lemma btoa_no_dot: "CHR ''.'' \<notin> set (btoa s)"
  by (simp add: btoa_def b64_encode_no_dot)

lemma btoa_ne: "s \<noteq> [] \<Longrightarrow> btoa s \<noteq> []"
  by (simp add: btoa_def b64_encode_ne)

lemma byte_of_char_of: "of_nat (unat (b::byte) mod 256) = b"
proof -
  have "unat b < 256" using unsigned_less[of b, where ?'a=nat] by simp
  then show ?thesis by simp
qed

lemma charCodes_fromCharCodes: "charCodes (fromCharCodes bs) = bs"
  by (simp add: charCodes_def fromCharCodes_def o_def byte_of_char_of map_idI)

lemma base64_roundtrip: "base64ToBuffer (bufferToBase64 bs) = Inr bs"
  by (simp add: base64ToBuffer_def bufferToBase64_def atob_btoa charCodes_fromCharCodes)

lemma split_on_no_sep: "c \<notin> set a \<Longrightarrow> split_on c a = [a]"
  by (induction a) auto

lemma split_on_dot: "c \<notin> set a \<Longrightarrow> c \<notin> set b \<Longrightarrow> split_on c (a @ [c] @ b) = [a, b]"
  by (induction a) (auto simp: split_on_no_sep)



section \<open>The small platform satisfies the laws\<close>

lemma demo_simps:
  "importKey demo = demo_importKey" "encrypt demo = demo_encrypt" "decrypt demo = demo_decrypt"
  "digest demo = demo_digest" "TextDecoder_decode demo = fromCharCodes"
  "JSON_parse demo = demo_JSON_parse" "Number_of demo = demo_Number" "String_of demo = demo_String"
  by (simp_all add: demo_def)

lemma demo_aes: "aes_gcm_correct demo"
  unfolding aes_gcm_correct_def demo_simps
  by (simp add: demo_importKey_def demo_encrypt_def demo_decrypt_def demo_tag_def Let_def)

lemma demo_sha: "sha256_length demo"
  by (auto simp: sha256_length_def demo_simps demo_digest_def)

lemma fromCharCodes_utf8: "isAscii s \<Longrightarrow> fromCharCodes (TextEncoder_encode s) = s"
proof (induction s)
  case Nil
  then show ?case by (simp add: fromCharCodes_def TextEncoder_encode_def)
next
  case (Cons c s)
  then have c: "of_char c < (128::nat)" and s: "isAscii s" by (simp_all add: isAscii_def)
  have "unat (of_nat (of_char c) :: byte) = of_char c"
    using c by (simp add: unat_of_nat)
  then have "fromCharCodes (utf8_char c) = [c]"
    using c by (simp add: utf8_char_def fromCharCodes_def Let_def)
  moreover have "fromCharCodes (a @ b) = fromCharCodes a @ fromCharCodes b" for a b
    by (simp add: fromCharCodes_def)
  ultimately show ?case using Cons.IH[OF s] by (simp add: TextEncoder_encode_def)
qed

lemma demo_utf8: "utf8_decode_ascii demo"
  by (simp add: utf8_decode_ascii_def demo_simps fromCharCodes_utf8)

lemma split_on_append: "c \<notin> set a \<Longrightarrow> split_on c (a @ c # b) = a # split_on c b"
  by (induction a) auto

lemma hex_no_quote: "isHexChar c \<Longrightarrow> c \<noteq> CHR 0x22"
  by (auto simp: isHexChar_def)

lemma jsonEscape_hex: "isHexChar c \<Longrightarrow> jsonEscape c = [c]"
  by (auto simp: isHexChar_def jsonEscape_def)

lemma jsonQuote_hex: "list_all isHexChar k \<Longrightarrow> jsonQuote k = CHR 0x22 # k @ [CHR 0x22]"
proof -
  assume h: "list_all isHexChar k"
  then have "concat (map jsonEscape k) = k"
    by (induction k) (simp_all add: jsonEscape_hex)
  then show ?thesis by (simp add: jsonQuote_def)
qed

lemma hex_no_quote_set: "list_all isHexChar k \<Longrightarrow> CHR 0x22 \<notin> set k"
  using hex_no_quote by (auto simp: list_all_iff)

lemma demo_parse_join:
  assumes "list_all (list_all isHexChar) ks" "CHR 0x22 \<notin> set p"
  shows "odd_elems (split_on (CHR 0x22) (p @ join '','' (map jsonQuote ks) @ '']'')) = ks"
  using assms
proof (induction ks arbitrary: p rule: induct_list012)
  case 1
  then show ?case by (simp add: split_on_no_sep)
next
  case (2 x)
  then have hx: "list_all isHexChar x" by simp
  have "p @ join '','' (map jsonQuote [x]) @ '']'' = p @ CHR 0x22 # (x @ CHR 0x22 # '']'')"
    by (simp add: jsonQuote_hex[OF hx])
  then show ?case
    using 2(2) hex_no_quote_set[OF hx]
    by (simp add: split_on_append split_on_no_sep)
next
  case (3 x y ys)
  then have hx: "list_all isHexChar x" and hr: "list_all (list_all isHexChar) (y # ys)" by simp_all
  have eq: "p @ join '','' (map jsonQuote (x # y # ys)) @ '']''
        = p @ CHR 0x22 # (x @ CHR 0x22 # ('','' @ join '','' (map jsonQuote (y # ys)) @ '']''))"
    by (simp add: jsonQuote_hex[OF hx])
  have ih: "odd_elems (split_on (CHR 0x22) ('','' @ join '','' (map jsonQuote (y # ys)) @ '']'')) = y # ys"
    using 3(2)[OF hr, of "'',''"] by simp
  show ?case
    unfolding eq using 3(4) hex_no_quote_set[OF hx] ih
    by (simp add: split_on_append)
qed

lemma demo_json: "json_roundtrip_hex demo"
proof -
  have "demo_JSON_parse (JSON_stringify ks) = Inr ks" if "list_all (list_all isHexChar) ks" for ks
    using demo_parse_join[OF that, of "''[''"] by (simp add: demo_JSON_parse_def JSON_stringify_def)
  then show ?thesis by (simp add: json_roundtrip_hex_def demo_simps)
qed



section \<open>Round trips of the encryptors\<close>

lemma length_getRandomValues: "length (fst (getRandomValues n g)) = n"
  by (simp add: getRandomValues_def)

lemma aes_gcm_correctD:
  assumes "aes_gcm_correct P" "length raw = 16" "length ivb = 12"
  obtains ke kd c where
    "importKey P ''AES-GCM'' raw [''encrypt''] = Inr ke"
    "importKey P ''AES-GCM'' raw [''decrypt''] = Inr kd"
    "encrypt P ''AES-GCM'' ivb 128 ke m = Inr c"
    "decrypt P ''AES-GCM'' ivb 128 kd c = Inr m"
  using assms unfolding aes_gcm_correct_def by blast

subsection \<open>Single layer\<close>

lemma hex32_key:
  assumes "isHexOfLength 32 k"
  shows "hexToBytes k = Inr (hexBytes k)" "length (hexBytes k) = 16"
proof -
  from assms have hx: "list_all isHexChar k" and len: "length k = 32"
    by (simp_all add: isHexOfLength_def)
  from len have ne: "k \<noteq> []" by auto
  show "hexToBytes k = Inr (hexBytes k)" using hexToBytes_hex[OF hx _ ne] len by simp
  show "length (hexBytes k) = 16" by (simp add: length_hexBytes len)
qed

lemma bufferToBase64_ne: "b \<noteq> [] \<Longrightarrow> bufferToBase64 b \<noteq> []"
  by (simp add: bufferToBase64_def btoa_ne fromCharCodes_def)

lemma single_layer_roundtrip_aux:
  assumes aes: "aes_gcm_correct P"
    and key: "isHexOfLength 32 k"
    and size: "file_size f \<le> MAX_ENCRYPTION_SIZE"
  shows "\<exists>ef md d. encryptFile P f k g nowIso = Inr (ef, md)
           \<and> decryptFile P (IsFile ef) md k guess now = Inr d
           \<and> file_content d = file_content f"
proof -
  let ?ivb = "fst (getRandomValues 12 g)"
  have livb: "length ?ivb = 12" by (rule length_getRandomValues)
  then have ivne: "?ivb \<noteq> []" by auto
  note kb = hex32_key[OF key]
  from aes_gcm_correctD[OF aes kb(2) livb, of "file_content f"]
  obtain ke kd c where
    ik: "importKey P ''AES-GCM'' (hexBytes k) [''encrypt''] = Inr ke"
    and dk: "importKey P ''AES-GCM'' (hexBytes k) [''decrypt''] = Inr kd"
    and en: "encrypt P ''AES-GCM'' ?ivb 128 ke (file_content f) = Inr c"
    and de: "decrypt P ''AES-GCM'' ?ivb 128 kd c = Inr (file_content f)"
    by blast
  have enc: "encryptFile P f k g nowIso =
      Inr (\<lparr> file_name = file_name f @ ''.enc'', file_type = ''application/octet-stream'',
              file_lastModified = file_lastModified f, file_content = c \<rparr>,
           \<lparr> iv = bufferToBase64 ?ivb, algorithm = ENCRYPTION_ALGORITHM,
              originalFileName = Some (file_name f),
              originalFileSize = Some (show_nat (file_size f)),
              originalFileType = Some (file_type f),
              encryptionTimestamp = Some nowIso \<rparr>)"
    using size kb(1) ik en
    by (simp add: encryptFile_def encryptFile_try_def bindE_def Let_def ENCRYPTION_ALGORITHM_def)
  have dec: "\<exists>d. decryptFile P (IsFile \<lparr> file_name = file_name f @ ''.enc'',
              file_type = ''application/octet-stream'',
              file_lastModified = file_lastModified f, file_content = c \<rparr>)
           \<lparr> iv = bufferToBase64 ?ivb, algorithm = ENCRYPTION_ALGORITHM,
              originalFileName = Some (file_name f),
              originalFileSize = Some (show_nat (file_size f)),
              originalFileType = Some (file_type f),
              encryptionTimestamp = Some nowIso \<rparr> k guess now = Inr d
          \<and> file_content d = file_content f"
    using kb(1) dk de bufferToBase64_ne[OF ivne]
    by (simp add: decryptFile_def decryptFile_try_def bindE_def Let_def ENCRYPTION_ALGORITHM_def
          base64_roundtrip)
  from enc dec show ?thesis by blast
qed

subsection \<open>The layer loop\<close>

lemma atob_btoa_bytes: "bindE (atob (btoa (fromCharCodes b))) f = f (fromCharCodes b)"
  by (simp add: atob_btoa bindE_def)

lemma encryptLayer_ok:
  assumes aes: "aes_gcm_correct P"
  shows "\<exists>c k lay g' kb ivb kd.
           encryptLayer P i (cur, keys, lays, g) = Inr (c, keys @ [k], lays @ [lay], g')
           \<and> k = hexOf kb \<and> length kb = 16 \<and> layerAlgorithm lay = ''AES-GCM''
           \<and> ivBase64 lay = btoa (fromCharCodes ivb) \<and> length ivb = 12
           \<and> importKey P ''AES-GCM'' kb [''decrypt''] = Inr kd
           \<and> decrypt P ''AES-GCM'' ivb 128 kd c = Inr cur"
proof -
  let ?kb = "fst (getRandomValues 16 g)"
  let ?g1 = "snd (getRandomValues 16 g)"
  let ?ivb = "fst (getRandomValues 12 ?g1)"
  let ?g2 = "snd (getRandomValues 12 ?g1)"
  have lkb: "length ?kb = 16" and livb: "length ?ivb = 12"
    by (rule length_getRandomValues)+
  from lkb have kbne: "?kb \<noteq> []" by auto
  from aes_gcm_correctD[OF aes lkb livb, of cur]
  obtain ke kd c where
    ik: "importKey P ''AES-GCM'' ?kb [''encrypt''] = Inr ke"
    and dk: "importKey P ''AES-GCM'' ?kb [''decrypt''] = Inr kd"
    and en: "encrypt P ''AES-GCM'' ?ivb 128 ke cur = Inr c"
    and de: "decrypt P ''AES-GCM'' ?ivb 128 kd c = Inr cur"
    by blast
  have "encryptLayer P i (cur, keys, lays, g) =
          Inr (c, keys @ [hexOf ?kb],
               lays @ [\<lparr> layerAlgorithm = ''AES-GCM'', ivBase64 = btoa (fromCharCodes ?ivb),
                          layerIndex = i \<rparr>], ?g2)"
    using ik en lkb
    by (simp add: encryptLayer_def hexToBytes_hexOf[OF kbne] bindE_def Let_def split_beta)
  with lkb livb dk de show ?thesis by force
qed

lemma decryptLayers_step:
  assumes "i < length keys" "keys ! i = hexOf kb" "length kb = 16"
    "layerAlgorithm (lays ! i) = ''AES-GCM''" "ivBase64 (lays ! i) = btoa (fromCharCodes ivb)"
    "importKey P ''AES-GCM'' kb [''decrypt''] = Inr kd"
  shows "decryptLayers P lays keys (Suc i) c
           = bindE (decrypt P ''AES-GCM'' ivb 128 kd c) (decryptLayers P lays keys i)"
proof -
  from assms(3) have kbne: "kb \<noteq> []" by auto
  show ?thesis
    using assms
    by (simp add: hexToBytes_hexOf[OF kbne] bindE_def Let_def atob_btoa charCodes_fromCharCodes)
qed

lemma decryptLayers_prefix:
  "n \<le> length lays \<Longrightarrow> n \<le> length keys \<Longrightarrow>
     decryptLayers P (lays @ l2) (keys @ k2) n c = decryptLayers P lays keys n c"
proof (induction n arbitrary: c)
  case 0
  then show ?case by simp
next
  case (Suc n)
  then have IH: "decryptLayers P (lays @ l2) (keys @ k2) n = decryptLayers P lays keys n"
    by (intro ext) simp
  from Suc.prems show ?case
    by (simp add: nth_append IH Let_def cong: if_cong)
qed


lemma encryptLayers_ok:
  assumes aes: "aes_gcm_correct P"
  shows "length keys = length lays \<Longrightarrow> list_all2 (layer_ok P) lays keys \<Longrightarrow>
         decryptLayers P lays keys (length lays) cur = Inr data \<Longrightarrow> i \<le> n \<Longrightarrow>
         \<exists>c ks ls g'. encryptLayers P n i (cur, keys, lays, g) = Inr (c, ks, ls, g')
            \<and> length ls = length lays + (n - i) \<and> list_all2 (layer_ok P) ls ks
            \<and> decryptLayers P ls ks (length ls) c = Inr data"
proof (induction "n - i" arbitrary: i cur keys lays g)
  case 0
  then have "i = n" by simp
  with 0 show ?case by (simp add: encryptLayers.simps)
next
  case (Suc d)
  then have lt: "i < n" and d: "d = n - (i + 1)" and le: "i + 1 \<le> n" by simp_all
  from encryptLayer_ok[OF aes, of i cur keys lays g]
  obtain c k lay g' kb ivb kd where
    step: "encryptLayer P i (cur, keys, lays, g) = Inr (c, keys @ [k], lays @ [lay], g')"
    and k: "k = hexOf kb" "length kb = 16" "layerAlgorithm lay = ''AES-GCM''"
      "ivBase64 lay = btoa (fromCharCodes ivb)" "length ivb = 12"
      "importKey P ''AES-GCM'' kb [''decrypt''] = Inr kd"
    and de: "decrypt P ''AES-GCM'' ivb 128 kd c = Inr cur"
    by blast
  have lok: "layer_ok P lay k" unfolding layer_ok_def using k by blast
  have len': "length (keys @ [k]) = length (lays @ [lay])" using Suc.prems(1) by simp
  have all': "list_all2 (layer_ok P) (lays @ [lay]) (keys @ [k])"
    using Suc.prems(2) lok by (simp add: list_all2_appendI)
  have "decryptLayers P (lays @ [lay]) (keys @ [k]) (Suc (length lays)) c
          = bindE (decrypt P ''AES-GCM'' ivb 128 kd c)
              (decryptLayers P (lays @ [lay]) (keys @ [k]) (length lays))"
    using Suc.prems(1) k by (intro decryptLayers_step[where kb = kb]) (simp_all add: nth_append)
  also have "\<dots> = decryptLayers P (lays @ [lay]) (keys @ [k]) (length lays) cur"
    by (simp add: de bindE_def)
  also have "\<dots> = decryptLayers P lays keys (length lays) cur"
    using Suc.prems(1) by (simp add: decryptLayers_prefix)
  finally have dec': "decryptLayers P (lays @ [lay]) (keys @ [k]) (length (lays @ [lay])) c = Inr data"
    using Suc.prems(3) by simp
  from Suc.hyps(1)[OF d len' all' dec' le, of g']
  obtain c2 ks ls g2 where
    r: "encryptLayers P n (i + 1) (c, keys @ [k], lays @ [lay], g') = Inr (c2, ks, ls, g2)"
    "length ls = length (lays @ [lay]) + (n - (i + 1))" "list_all2 (layer_ok P) ls ks"
    "decryptLayers P ls ks (length ls) c2 = Inr data"
    by blast
  have "encryptLayers P n i (cur, keys, lays, g) = Inr (c2, ks, ls, g2)"
    using lt step r(1) by (subst encryptLayers.simps) simp
  moreover have "length ls = length lays + (n - i)" using r(2) lt by simp
  ultimately show ?case using r(3,4) by blast
qed



subsection \<open>Wrapping and unwrapping the layer keys\<close>

lemma keyBuffer_ok:
  assumes "sha256_length P"
  shows "\<exists>kb. encryptLayerKeys_keyBuffer P pk = Inr kb \<and> decryptLayerKeys_keyBuffer P pk = Inr kb
           \<and> length kb = 16"
proof -
  have same: "encryptLayerKeys_keyBuffer P pk = decryptLayerKeys_keyBuffer P pk"
    by (simp add: encryptLayerKeys_keyBuffer_def decryptLayerKeys_keyBuffer_def)
  consider (a) "isHexOfLength 32 pk" | (b) "\<not> isHexOfLength 32 pk" "isHexOfLength 64 pk"
    | (c) "\<not> isHexOfLength 32 pk" "\<not> isHexOfLength 64 pk" by blast
  then have "\<exists>kb. decryptLayerKeys_keyBuffer P pk = Inr kb \<and> length kb = 16"
  proof cases
    case a
    then show ?thesis using hex32_key[OF a] by (simp add: decryptLayerKeys_keyBuffer_def)
  next
    case b
    then have hx: "list_all isHexChar pk" and len: "length pk = 64"
      by (simp_all add: isHexOfLength_def)
    from len have ne: "pk \<noteq> []" by auto
    have "hexToBytes pk = Inr (hexBytes pk)" using hexToBytes_hex[OF hx _ ne] len by simp
    then show ?thesis using b len
      by (simp add: decryptLayerKeys_keyBuffer_def bindE_def length_hexBytes)
  next
    case c
    then show ?thesis using assms
      by (simp add: decryptLayerKeys_keyBuffer_def sha256_length_def Let_def)
  qed
  with same show ?thesis by simp
qed

lemma isAscii_append: "isAscii (a @ b) \<longleftrightarrow> isAscii a \<and> isAscii b"
  by (simp add: isAscii_def)

lemma isAscii_hex: "list_all isHexChar k \<Longrightarrow> isAscii k"
  using hexChar_props(7) by (auto simp: isAscii_def list_all_iff)

lemma isAscii_jsonQuote: "list_all isHexChar k \<Longrightarrow> isAscii (jsonQuote k)"
  using isAscii_hex[of k] by (simp add: jsonQuote_hex isAscii_def)

lemma isAscii_join:
  "list_all (list_all isHexChar) ks \<Longrightarrow> isAscii (join '','' (map jsonQuote ks))"
proof (induction ks rule: induct_list012)
  case 1
  then show ?case by (simp add: isAscii_def)
next
  case (2 x)
  then show ?case by (simp add: isAscii_jsonQuote)
next
  case (3 x y zs)
  then have "isAscii (join '','' (map jsonQuote (y # zs)))" and "isAscii (jsonQuote x)"
    by (simp_all add: isAscii_jsonQuote)
  then show ?case by (simp add: isAscii_append) (simp add: isAscii_def)
qed

lemma isAscii_JSON_stringify:
  "list_all (list_all isHexChar) ks \<Longrightarrow> isAscii (JSON_stringify ks)"
  using isAscii_join[of ks] by (simp add: JSON_stringify_def isAscii_append) (simp add: isAscii_def)

lemma split_wrapped:
  "split_on (CHR ''.'') (btoa a @ ''.'' @ btoa b) = [btoa a, btoa b]"
  using split_on_dot[OF btoa_no_dot btoa_no_dot, of a b] by simp

lemma decryptLayerKeys_wrapped:
  "decryptLayerKeys P (btoa (fromCharCodes ct) @ ''.'' @ btoa (fromCharCodes ivw)) pk
     = bindE (decryptLayerKeys_keyBuffer P pk) (\<lambda>keyBuffer.
       bindE (importKey P ''AES-GCM'' keyBuffer [''decrypt'']) (\<lambda>cryptoKey.
       bindE (decrypt P ''AES-GCM'' ivw 128 cryptoKey ct)
         (\<lambda>decrypted. JSON_parse P (TextDecoder_decode P decrypted))))"
  unfolding decryptLayerKeys_def split_wrapped
  by (simp add: atob_btoa_bytes charCodes_fromCharCodes)

lemma wrap_roundtrip:
  assumes aes: "aes_gcm_correct P" and sha: "sha256_length P"
    and utf: "utf8_decode_ascii P" and json: "json_roundtrip_hex P"
    and hex: "list_all (list_all isHexChar) keys"
  shows "\<exists>w c kb ke. encryptLayerKeys P keys pk g = Inr w \<and> decryptLayerKeys P w pk = Inr keys
           \<and> w = btoa (fromCharCodes c) @ ''.'' @ btoa (fromCharCodes (fst (getRandomValues 12 g)))
           \<and> decryptLayerKeys_keyBuffer P pk = Inr kb \<and> length kb = 16
           \<and> importKey P ''AES-GCM'' kb [''encrypt''] = Inr ke
           \<and> encrypt P ''AES-GCM'' (fst (getRandomValues 12 g)) 128 ke
                 (TextEncoder_encode (JSON_stringify keys)) = Inr c"
proof -
  let ?ivw = "fst (getRandomValues 12 g)"
  let ?m = "TextEncoder_encode (JSON_stringify keys)"
  from keyBuffer_ok[OF sha, of pk] obtain kb where
    kb: "encryptLayerKeys_keyBuffer P pk = Inr kb" "decryptLayerKeys_keyBuffer P pk = Inr kb"
      "length kb = 16" by blast
  have livw: "length ?ivw = 12" by (rule length_getRandomValues)
  from aes_gcm_correctD[OF aes kb(3) livw, of ?m]
  obtain ke kd c where
    ik: "importKey P ''AES-GCM'' kb [''encrypt''] = Inr ke"
    and dk: "importKey P ''AES-GCM'' kb [''decrypt''] = Inr kd"
    and en: "encrypt P ''AES-GCM'' ?ivw 128 ke ?m = Inr c"
    and de: "decrypt P ''AES-GCM'' ?ivw 128 kd c = Inr ?m"
    by blast
  have enc: "encryptLayerKeys P keys pk g
               = Inr (btoa (fromCharCodes c) @ ''.'' @ btoa (fromCharCodes ?ivw))"
    using kb(1) ik en by (simp add: encryptLayerKeys_def bindE_def Let_def)
  have "TextDecoder_decode P ?m = JSON_stringify keys"
    using utf isAscii_JSON_stringify[OF hex] by (simp add: utf8_decode_ascii_def)
  moreover have "JSON_parse P (JSON_stringify keys) = Inr keys"
    using json hex by (simp add: json_roundtrip_hex_def)
  ultimately have dec: "decryptLayerKeys P (btoa (fromCharCodes c) @ ''.'' @ btoa (fromCharCodes ?ivw)) pk
                 = Inr keys"
    unfolding decryptLayerKeys_wrapped using kb(2) dk de by (simp add: bindE_def)
  from enc dec kb(2,3) ik en show ?thesis by simp
qed

lemma layer_ok_hex: "list_all2 (layer_ok P) ls ks \<Longrightarrow> list_all (list_all isHexChar) ks"
proof (induction rule: list_all2_induct)
  case Nil
  then show ?case by simp
next
  case (Cons l ls k ks)
  then show ?case by (auto simp: layer_ok_def hexOf_hex)
qed

subsection \<open>The whole multi-layer round trip\<close>

lemma multiLayerEncrypt_ok:
  assumes aes: "aes_gcm_correct P" and sha: "sha256_length P"
    and utf: "utf8_decode_ascii P" and json: "json_roundtrip_hex P"
  shows "\<exists>r. multiLayerEncrypt P data pk g uuid = Inr r
           \<and> length (layers (metadata r)) = 3
           \<and> version (metadata r) = ''1.0''
           \<and> list_all2 (layer_ok P) (layers (metadata r)) (layerKeys r)
           \<and> decryptLayers P (layers (metadata r)) (layerKeys r) 3 (encryptedData r) = Inr data
           \<and> decryptLayerKeys P (encryptedLayerKeys (metadata r)) pk = Inr (layerKeys r)
           \<and> (\<exists>c ivw kb ke.
                 encryptedLayerKeys (metadata r)
                   = btoa (fromCharCodes c) @ ''.'' @ btoa (fromCharCodes ivw)
                 \<and> decryptLayerKeys_keyBuffer P pk = Inr kb \<and> length kb = 16
                 \<and> importKey P ''AES-GCM'' kb [''encrypt''] = Inr ke
                 \<and> encrypt P ''AES-GCM'' ivw 128 ke
                       (TextEncoder_encode (JSON_stringify (layerKeys r))) = Inr c)"
proof -
  from encryptLayers_ok[OF aes, of "[]" "[]" data data 0 3 g]
  obtain c ks ls g' where
    loop: "encryptLayers P 3 0 (data, [], [], g) = Inr (c, ks, ls, g')"
    and len: "length ls = 3" and ok: "list_all2 (layer_ok P) ls ks"
    and dec: "decryptLayers P ls ks (length ls) c = Inr data"
    by auto
  from wrap_roundtrip[OF aes sha utf json layer_ok_hex[OF ok], of pk g']
  obtain w cw kb ke where w: "encryptLayerKeys P ks pk g' = Inr w" "decryptLayerKeys P w pk = Inr ks"
    and shape: "w = btoa (fromCharCodes cw) @ ''.'' @ btoa (fromCharCodes (fst (getRandomValues 12 g')))"
      "decryptLayerKeys_keyBuffer P pk = Inr kb" "length kb = 16"
      "importKey P ''AES-GCM'' kb [''encrypt''] = Inr ke"
      "encrypt P ''AES-GCM'' (fst (getRandomValues 12 g')) 128 ke
         (TextEncoder_encode (JSON_stringify ks)) = Inr cw"
    by blast
  have "multiLayerEncrypt P data pk g uuid
          = Inr \<lparr> encryptedData = c, layerKeys = ks,
                  metadata = \<lparr> version = ''1.0'', layers = ls,
                               encryptedLayerKeys = w, encryptionId = uuid \<rparr> \<rparr>"
    using loop w(1) by (simp add: multiLayerEncrypt_def LAYERS_def bindE_def)
  then show ?thesis using len ok dec w(2) shape by auto
qed

lemma multiLayer_roundtrip_aux:
  assumes aes: "aes_gcm_correct P" and sha: "sha256_length P"
    and utf: "utf8_decode_ascii P" and json: "json_roundtrip_hex P"
  shows "\<exists>r. multiLayerEncrypt P data pk g uuid = Inr r
           \<and> length (layers (metadata r)) = 3
           \<and> multiLayerDecrypt P (encryptedData r) (metadata r) pk = Inr data"
proof -
  from multiLayerEncrypt_ok[OF assms, of data pk g uuid] obtain r where
    r: "multiLayerEncrypt P data pk g uuid = Inr r" "length (layers (metadata r)) = 3"
      "decryptLayers P (layers (metadata r)) (layerKeys r) 3 (encryptedData r) = Inr data"
      "decryptLayerKeys P (encryptedLayerKeys (metadata r)) pk = Inr (layerKeys r)"
    by blast
  then have "multiLayerDecrypt P (encryptedData r) (metadata r) pk = Inr data"
    by (simp add: multiLayerDecrypt_def bindE_def)
  with r(1,2) show ?thesis by blast
qed


section \<open>The Merkle engine on two chunks\<close>

text \<open>
  C1. For the chunk list \<open>[[0x00], [0x01]]\<close> the tree has the root \<open>34323433\<close> (the hex
  text of \<open>4243\<close>) and the proof of the second chunk is its left sibling \<open>42\<close>.
  \<open>verifyMerkleProof\<close> appends every sibling on the right, so for the second chunk it
  hashes \<open>4342\<close> and rejects the proof that \<open>generateMerkleTree\<close> produced for it.
\<close>

theorem merkle_right_leaf_rejected:
  "generateMerkleTree [[0], [1]]
     = \<lparr> root = Some ''34323433'', proofs = [[''43''], [''42'']] \<rparr>
   \<and> verifyMerkleProof [0] [''43''] ''34323433''
   \<and> \<not> verifyMerkleProof [1] [''42''] ''34323433''"
  by code_simp


section \<open>Secret combiner: the share count\<close>

lemma show_nat_digits:
  "show_nat (Suc (Suc 0)) = ''2''" "show_nat 3 = ''3''" "show_nat 15 = ''15''"
  by code_simp+

text \<open>
  C5. With fewer than \<open>threshold\<close> shares, \<open>combineShares\<close> returns (it does not loop)
  and its result is the error \<open>Not enough shares. Need at least T, but got n\<close>; no
  interpolation result is produced.
\<close>

theorem combineShares_insufficient:
  "length shares < threshold \<Longrightarrow>
     combineShares P shares threshold
       = Some (Inl (Error (''Not enough shares. Need at least '' @ show_nat threshold
                           @ '', but got '' @ show_nat (length shares))))"
  by (simp add: combineShares_def notEnoughShares_def)

theorem combineShares_insufficient_witness:
  "length [''1:99'', ''2:103''] < (3::nat) \<and>
   combineShares demo [''1:99'', ''2:103''] 3
     = Some (Inl (Error ''Not enough shares. Need at least 3, but got 2''))"
  using combineShares_insufficient [of "[''1:99'', ''2:103'']" 3 demo]
  by (simp add: show_nat_digits)

text \<open>
  C10. With at least \<open>threshold\<close> shares, \<open>combineShares\<close> reads only the first
  \<open>threshold\<close> of them: the result is the one for the list cut to that length.
\<close>

lemma lagrangeTerm_cong:
  assumes "\<forall>k < t. ps ! k = qs ! k" "i < t"
  shows "lagrangeTerm ps t i = lagrangeTerm qs t i"
  unfolding lagrangeTerm_def using assms
  by (intro fold_cong) auto

lemma interpolate_cong:
  assumes "\<forall>k < t. ps ! k = qs ! k"
  shows "interpolate ps t = interpolate qs t"
  unfolding interpolate_def
  by (intro fold_cong) (auto simp: lagrangeTerm_cong[OF assms])

theorem combineShares_first_threshold:
  "threshold \<le> length shares \<Longrightarrow>
     combineShares P shares threshold = combineShares P (take threshold shares) threshold"
proof -
  assume le: "threshold \<le> length shares"
  have "\<forall>k < threshold. map (parseShare P) shares ! k = map (parseShare P) (take threshold shares) ! k"
    using le by simp
  from interpolate_cong[OF this] show ?thesis
    using le by (simp add: combineShares_def)
qed

theorem combineShares_first_threshold_witness:
  "(3::nat) \<le> length [''1:99'', ''2:103'', ''3:109'', ''4:117'', ''5:127''] \<and>
   combineShares demo [''1:99'', ''2:103'', ''3:109'', ''4:117'', ''5:127''] 3
     = combineShares demo (take 3 [''1:99'', ''2:103'', ''3:109'', ''4:117'', ''5:127'']) 3"
  using combineShares_first_threshold [of 3 "[''1:99'', ''2:103'', ''3:109'', ''4:117'', ''5:127'']" demo]
  by simp

section \<open>Single-layer encryptor: the size guard\<close>

text \<open>
  C8. A file of more than \<open>15 * 1024 * 1024\<close> bytes makes \<open>encryptFile\<close> fail with the
  size-limit message, whatever the key and the platform are (no key is parsed and no
  platform service is called). For a file of at most that size, a failure of the \<open>try\<close> block
  is a failure of the key parsing, of \<open>importKey\<close> or of \<open>encrypt\<close>, never the guard.
\<close>

theorem encryptFile_size_guard:
  "(file_size f > 15 * 1024 * 1024 \<longrightarrow>
      encryptFile P f encryptionKey g nowIso
        = Inl (Error ''Failed to encrypt file: File is too large for encryption. Maximum size is 15MB.''))
   \<and> (file_size f \<le> 15 * 1024 * 1024 \<longrightarrow>
        (\<forall>e. encryptFile_try P f encryptionKey g nowIso = Inl e \<longrightarrow>
           hexToBytes encryptionKey = Inl e
           \<or> (\<exists>keyBytes. importKey P ''AES-GCM'' keyBytes [''encrypt''] = Inl e)
           \<or> (\<exists>ivBytes key. encrypt P ''AES-GCM'' ivBytes 128 key (file_content f) = Inl e)))"
proof (intro conjI impI allI)
  assume "file_size f > 15 * 1024 * 1024"
  then show "encryptFile P f encryptionKey g nowIso
        = Inl (Error ''Failed to encrypt file: File is too large for encryption. Maximum size is 15MB.'')"
    by (simp add: encryptFile_def encryptFile_try_def MAX_ENCRYPTION_SIZE_def show_nat_digits)
next
  fix e
  assume le: "file_size f \<le> 15 * 1024 * 1024"
    and fail: "encryptFile_try P f encryptionKey g nowIso = Inl e"
  show "hexToBytes encryptionKey = Inl e
           \<or> (\<exists>keyBytes. importKey P ''AES-GCM'' keyBytes [''encrypt''] = Inl e)
           \<or> (\<exists>ivBytes key. encrypt P ''AES-GCM'' ivBytes 128 key (file_content f) = Inl e)"
    using le fail
    by (auto simp: encryptFile_try_def MAX_ENCRYPTION_SIZE_def ENCRYPTION_ALGORITHM_def bindE_def
                   Let_def split: sum.splits)
qed

lemma hexToBytes_zz: "hexToBytes ''zz'' = Inr [0]"
  by (simp add: hexToBytes_def parseInt16_def isWhiteSpace_def isHexChar_def isLineTerminator_def
        toUint8_def Let_def)

lemma encryptFile_try_zz:
  "encryptFile_try demo small_file ''zz'' demo_rng ''2024-01-01T00:00:00.000Z''
     = Inl (DOMException ''DataError'' ''Invalid key length'')"
  by (simp add: encryptFile_try_def file_size_def small_file_def MAX_ENCRYPTION_SIZE_def
        hexToBytes_zz bindE_def Let_def demo_simps demo_importKey_def ENCRYPTION_ALGORITHM_def)

theorem encryptFile_size_guard_witness:
  "file_size big_file > 15 * 1024 * 1024
   \<and> encryptFile demo big_file ''00112233445566778899aabbccddeeff'' demo_rng ''2024-01-01T00:00:00.000Z''
        = Inl (Error ''Failed to encrypt file: File is too large for encryption. Maximum size is 15MB.'')
   \<and> file_size small_file \<le> 15 * 1024 * 1024
   \<and> encryptFile_try demo small_file ''zz'' demo_rng ''2024-01-01T00:00:00.000Z''
        = Inl (DOMException ''DataError'' ''Invalid key length'')
   \<and> (hexToBytes ''zz'' = Inl (DOMException ''DataError'' ''Invalid key length'')
        \<or> (\<exists>keyBytes. importKey demo ''AES-GCM'' keyBytes [''encrypt'']
                          = Inl (DOMException ''DataError'' ''Invalid key length''))
        \<or> (\<exists>ivBytes key. encrypt demo ''AES-GCM'' ivBytes 128 key (file_content small_file)
                          = Inl (DOMException ''DataError'' ''Invalid key length'')))"
proof -
  have big: "file_size big_file > 15 * 1024 * 1024"
    by (simp add: file_size_def big_file_def)
  have small: "file_size small_file \<le> 15 * 1024 * 1024"
    by (simp add: file_size_def small_file_def)
  show ?thesis
    using big small encryptFile_try_zz
      encryptFile_size_guard [of big_file demo "''00112233445566778899aabbccddeeff''" demo_rng
        "''2024-01-01T00:00:00.000Z''"]
      encryptFile_size_guard [of small_file demo "''zz''" demo_rng "''2024-01-01T00:00:00.000Z''"]
    by blast
qed

section \<open>Multi-layer decryptor: version tag and error propagation\<close>

text \<open>
  C7 (as the code has it). \<open>multiLayerDecrypt\<close> never reads \<open>metadata.version\<close>: replacing
  the version tag by any other string leaves its result unchanged.
\<close>

theorem multiLayerDecrypt_ignores_version:
  "multiLayerDecrypt P encrypted (md\<lparr> version := v \<rparr>) primaryKey
     = multiLayerDecrypt P encrypted md primaryKey"
  by (simp add: multiLayerDecrypt_def)

text \<open>
  C6 (as the code has it). \<open>multiLayerDecrypt\<close> passes on unchanged the error with which
  the recovery of the layer keys fails, and likewise the error with which a layer fails;
  it adds no error kind of its own.
\<close>

theorem multiLayerDecrypt_propagates:
  "(decryptLayerKeys P (encryptedLayerKeys md) primaryKey = Inl e \<longrightarrow>
      multiLayerDecrypt P encrypted md primaryKey = Inl e)
   \<and> (decryptLayerKeys P (encryptedLayerKeys md) primaryKey = Inr keys
        \<and> decryptLayers P (layers md) keys (length (layers md)) encrypted = Inl e' \<longrightarrow>
      multiLayerDecrypt P encrypted md primaryKey = Inl e')"
  by (simp add: multiLayerDecrypt_def bindE_def)

section \<open>Layer-key wrapping: the key derived from the primary key\<close>

text \<open>
  C9. \<open>encryptLayerKeys\<close> and \<open>decryptLayerKeys\<close> compute the same key bytes from the same
  primary key: the 16 raw bytes of a string of exactly 32 hex digits; the first 16 of the
  32 raw bytes of a string of exactly 64 hex digits; otherwise the first 16 bytes of the
  SHA-256 digest of the UTF-8 text.
\<close>

lemma take16_length: "16 \<le> length xs \<Longrightarrow> length (take 16 xs) = 16"
  by simp

theorem layer_key_derivation:
  "encryptLayerKeys_keyBuffer P primaryKey = decryptLayerKeys_keyBuffer P primaryKey
   \<and> (isHexOfLength 32 primaryKey \<longrightarrow>
        decryptLayerKeys_keyBuffer P primaryKey = Inr (hexBytes primaryKey)
        \<and> length (hexBytes primaryKey) = 16)
   \<and> (isHexOfLength 64 primaryKey \<longrightarrow>
        decryptLayerKeys_keyBuffer P primaryKey = Inr (take 16 (hexBytes primaryKey))
        \<and> length (hexBytes primaryKey) = 32
        \<and> length (take 16 (hexBytes primaryKey)) = 16)
   \<and> (\<not> isHexOfLength 32 primaryKey \<and> \<not> isHexOfLength 64 primaryKey \<longrightarrow>
        decryptLayerKeys_keyBuffer P primaryKey
          = Inr (take 16 (digest P ''SHA-256'' (TextEncoder_encode primaryKey)))
        \<and> (sha256_length P \<longrightarrow>
             length (take 16 (digest P ''SHA-256'' (TextEncoder_encode primaryKey))) = 16))"
proof (intro conjI impI)
  show "encryptLayerKeys_keyBuffer P primaryKey = decryptLayerKeys_keyBuffer P primaryKey"
    by (simp add: encryptLayerKeys_keyBuffer_def decryptLayerKeys_keyBuffer_def)
next
  assume h: "isHexOfLength 32 primaryKey"
  then have hx: "list_all isHexChar primaryKey" and len: "length primaryKey = 32"
    by (simp_all add: isHexOfLength_def)
  from len have ne: "primaryKey \<noteq> []" by auto
  show "decryptLayerKeys_keyBuffer P primaryKey = Inr (hexBytes primaryKey)"
    using h hexToBytes_hex[OF hx _ ne] len by (simp add: decryptLayerKeys_keyBuffer_def)
  show "length (hexBytes primaryKey) = 16" by (simp add: length_hexBytes len)
next
  assume h: "isHexOfLength 64 primaryKey"
  then have hx: "list_all isHexChar primaryKey" and len: "length primaryKey = 64"
    by (simp_all add: isHexOfLength_def)
  from len have ne: "primaryKey \<noteq> []" by auto
  from h len have n32: "\<not> isHexOfLength 32 primaryKey" by (simp add: isHexOfLength_def)
  show "decryptLayerKeys_keyBuffer P primaryKey = Inr (take 16 (hexBytes primaryKey))"
    using h n32 hexToBytes_hex[OF hx _ ne] len
    by (simp add: decryptLayerKeys_keyBuffer_def bindE_def)
  show "length (hexBytes primaryKey) = 32" by (simp add: length_hexBytes len)
  show "length (take 16 (hexBytes primaryKey)) = 16" by (simp add: length_hexBytes len)
next
  assume h: "\<not> isHexOfLength 32 primaryKey \<and> \<not> isHexOfLength 64 primaryKey"
  then show "decryptLayerKeys_keyBuffer P primaryKey
          = Inr (take 16 (digest P ''SHA-256'' (TextEncoder_encode primaryKey)))"
    by (simp add: decryptLayerKeys_keyBuffer_def Let_def)
next
  assume "sha256_length P"
  then show "length (take 16 (digest P ''SHA-256'' (TextEncoder_encode primaryKey))) = 16"
    by (simp add: sha256_length_def)
qed


end
